theory Spec2Isabelle
  imports Main "HOL-Library.AList" "HOL-Library.Sublist"
begin

section \<open>Values\<close>

text \<open>
  JSON scalars, and the values the example generator works on. Its \<open>example\<close> variable is
  typed \<open>any\<close> in the source: it holds raw example JSON supplied by the caller as well as
  cache items, which are objects too. An object keeps its keys in insertion order; an
  array hole reads as \<open>undefined\<close>.
\<close>

datatype Scalar = SBool bool | SNum int | SStr string

datatype Val =
    VUndefined
  | VNull
  | VScalar Scalar
  | VArr "Val list"
  | VObj "(string \<times> Val) list"

fun truthyScalar :: "Scalar \<Rightarrow> bool" where
  "truthyScalar (SBool b) = b"
| "truthyScalar (SNum n) = (n \<noteq> 0)"
| "truthyScalar (SStr s) = (s \<noteq> [])"

fun truthy :: "Val \<Rightarrow> bool" where
  "truthy VUndefined = False"
| "truthy VNull = False"
| "truthy (VScalar s) = truthyScalar s"
| "truthy _ = True"

section \<open>Schemas\<close>

text \<open>
  A schema node of the document. \<open>Absent\<close> is JavaScript's \<open>undefined\<close> or \<open>null\<close>,
  \<open>NonObject\<close> a JSON scalar found where a schema is expected, \<open>SchemaObject\<close> an object
  with the keys the resolver and the generator read. The scalar keys are in the record
  \<open>SchemaAttrs\<close> (\<open>s_ref\<close> is the key \<open>$ref\<close>, \<open>s_x_ms_enum\<close> is \<open>Some m\<close> when the key
  \<open>x-ms-enum\<close> is present with \<open>modelAsString\<close> equal to \<open>m\<close>); an object keeps its keys in
  insertion order, so \<open>properties\<close> and \<open>discriminatorMap\<close> are association lists. A parameter
  object is a schema object with a \<open>name\<close> and, for a body parameter, the key \<open>schema\<close>:
  \<open>parameterSchema\<close> is \<open>None\<close> when the object has no key \<open>schema\<close> and \<open>Some s\<close> when it has the
  key with the value \<open>s\<close> (\<open>Absent\<close> for \<open>null\<close>).
\<close>

record SchemaAttrs =
  s_ref :: "string option"
  s_type :: "string option"
  s_required :: "string list option"
  s_enum :: "string list option"
  s_discriminator :: "string option"
  s_x_ms_discriminator_value :: "string option"
  s_x_ms_azure_resource :: "bool option"
  s_x_ms_enum :: "bool option option"
  s_name :: "string option"

definition noAttrs :: SchemaAttrs where
  "noAttrs = \<lparr> s_ref = None, s_type = None, s_required = None, s_enum = None,
              s_discriminator = None, s_x_ms_discriminator_value = None,
              s_x_ms_azure_resource = None, s_x_ms_enum = None, s_name = None \<rparr>"

datatype Schema =
    Absent
  | NonObject Scalar
  | SchemaObject (attrs: SchemaAttrs)
      (properties: "(string \<times> Schema) list option")
      (allOf: "Schema list option")
      (oneOf: "Schema list option")
      (items: Schema)
      (additionalProperties: Schema)
      (discriminatorMap: "(string \<times> Schema) list option")
      (parameterSchema: "Schema option")
where
  "attrs Absent = noAttrs"
| "attrs (NonObject x) = noAttrs"
| "properties Absent = None"
| "properties (NonObject x) = None"
| "allOf Absent = None"
| "allOf (NonObject x) = None"
| "oneOf Absent = None"
| "oneOf (NonObject x) = None"
| "items Absent = Absent"
| "items (NonObject x) = Absent"
| "additionalProperties Absent = Absent"
| "additionalProperties (NonObject x) = Absent"
| "discriminatorMap Absent = None"
| "discriminatorMap (NonObject x) = None"
| "parameterSchema Absent = None"
| "parameterSchema (NonObject x) = None"

text \<open>\<open>typeof x === "object"\<close> for a non-null \<open>x\<close>.\<close>

fun isObj :: "Schema \<Rightarrow> bool" where
  "isObj (SchemaObject a p ao oo it ap dm sc) = True"
| "isObj _ = False"

fun truthySchema :: "Schema \<Rightarrow> bool" where
  "truthySchema Absent = False"
| "truthySchema (NonObject x) = truthyScalar x"
| "truthySchema _ = True"

text \<open>A string is truthy when it is defined and not empty.\<close>

fun truthyStr :: "string option \<Rightarrow> bool" where
  "truthyStr None = False"
| "truthyStr (Some s) = (s \<noteq> [])"

fun map_attrs :: "(SchemaAttrs \<Rightarrow> SchemaAttrs) \<Rightarrow> Schema \<Rightarrow> Schema" where
  "map_attrs f (SchemaObject a p ao oo it ap dm sc) = SchemaObject (f a) p ao oo it ap dm sc"
| "map_attrs f s = s"

fun set_properties :: "(string \<times> Schema) list option \<Rightarrow> Schema \<Rightarrow> Schema" where
  "set_properties p' (SchemaObject a p ao oo it ap dm sc) = SchemaObject a p' ao oo it ap dm sc"
| "set_properties p' s = s"

fun set_allOf :: "Schema list option \<Rightarrow> Schema \<Rightarrow> Schema" where
  "set_allOf ao' (SchemaObject a p ao oo it ap dm sc) = SchemaObject a p ao' oo it ap dm sc"
| "set_allOf ao' s = s"

fun set_oneOf :: "Schema list option \<Rightarrow> Schema \<Rightarrow> Schema" where
  "set_oneOf oo' (SchemaObject a p ao oo it ap dm sc) = SchemaObject a p ao oo' it ap dm sc"
| "set_oneOf oo' s = s"

fun set_items :: "Schema \<Rightarrow> Schema \<Rightarrow> Schema" where
  "set_items it' (SchemaObject a p ao oo it ap dm sc) = SchemaObject a p ao oo it' ap dm sc"
| "set_items it' s = s"

fun set_additionalProperties :: "Schema \<Rightarrow> Schema \<Rightarrow> Schema" where
  "set_additionalProperties ap' (SchemaObject a p ao oo it ap dm sc) = SchemaObject a p ao oo it ap' dm sc"
| "set_additionalProperties ap' s = s"

text \<open>An object with the given scalar keys and nothing else; \<open>{ $ref: r }\<close>.\<close>

definition objectOf :: "SchemaAttrs \<Rightarrow> Schema" where
  "objectOf a = SchemaObject a None None None Absent Absent None None"

definition refTo :: "string \<Rightarrow> Schema" where
  "refTo r = objectOf (noAttrs\<lparr> s_ref := Some r \<rparr>)"

text \<open>
  What a call can do besides returning: throw (\<open>Error\<close> is a \<open>throw new Error(...)\<close> of the
  source with its message, \<open>TypeError\<close> a property read or write on \<open>undefined\<close>, \<open>null\<close> or a
  scalar where JavaScript throws one), or not return within the fuel given, which is the
  value \<open>None\<close> of the result type.
\<close>

datatype error = Error string | TypeError

type_synonym 'a result = "(error + 'a) option"

definition returns :: "'a \<Rightarrow> 'a result" where
  "returns x = Some (Inr x)"

definition throws :: "error \<Rightarrow> 'a result" where
  "throws e = Some (Inl e)"

fun bind :: "'a result \<Rightarrow> ('a \<Rightarrow> 'b result) \<Rightarrow> 'b result" where
  "bind None f = None"
| "bind (Some (Inl e)) f = Some (Inl e)"
| "bind (Some (Inr x)) f = f x"

text \<open>A loop over a list whose body can throw or run out of fuel.\<close>

fun foldM :: "('a \<Rightarrow> 's \<Rightarrow> 's result) \<Rightarrow> 'a list \<Rightarrow> 's \<Rightarrow> 's result" where
  "foldM f [] s = returns s"
| "foldM f (x # xs) s = bind (f x s) (foldM f xs)"

section \<open>Strings and JSON pointers\<close>

text \<open>\<open>s.split(c)\<close>.\<close>

fun splitOn :: "char \<Rightarrow> string \<Rightarrow> string list" where
  "splitOn c [] = [[]]"
| "splitOn c (x # xs) =
     (if x = c then [] # splitOn c xs
      else (case splitOn c xs of w # ws \<Rightarrow> (x # w) # ws | [] \<Rightarrow> [[x]]))"

text \<open>\<open>s.indexOf(t) !== -1\<close>.\<close>

fun includesStr :: "string \<Rightarrow> string \<Rightarrow> bool" where
  "includesStr [] t = (t = [])"
| "includesStr (x # xs) t = (prefix t (x # xs) \<or> includesStr xs t)"

text \<open>\<open>s.substring(s.lastIndexOf("/") + 1)\<close>.\<close>

definition afterLastSlash :: "string \<Rightarrow> string" where
  "afterLastSlash s = last (splitOn CHR ''/'' s)"

text \<open>\<open>!s.trim().length\<close>, over the ASCII white space.\<close>

definition isSpace :: "char \<Rightarrow> bool" where
  "isSpace c = (c \<in> set [CHR '' '', CHR 0x09, CHR 0x0A, CHR 0x0B, CHR 0x0C, CHR 0x0D])"

definition blank :: "string \<Rightarrow> bool" where
  "blank s = list_all isSpace s"

text \<open>Decimal array indices, as they occur in JSON pointers.\<close>

definition digitOf :: "char \<Rightarrow> nat option" where
  "digitOf c = map_of (zip ''0123456789'' [0 ..< 10]) c"

fun parseIndexFrom :: "nat \<Rightarrow> string \<Rightarrow> nat option" where
  "parseIndexFrom acc [] = Some acc"
| "parseIndexFrom acc (c # cs) =
     (case digitOf c of None \<Rightarrow> None | Some d \<Rightarrow> parseIndexFrom (10 * acc + d) cs)"

definition parseIndex :: "string \<Rightarrow> nat option" where
  "parseIndex s = (if s = [] then None else parseIndexFrom 0 s)"

fun showDigits :: "nat \<Rightarrow> nat \<Rightarrow> string" where
  "showDigits 0 n = []"
| "showDigits (Suc k) n =
     (if n < 10 then [''0123456789'' ! n]
      else showDigits k (n div 10) @ [''0123456789'' ! (n mod 10)])"

definition showIndex :: "nat \<Rightarrow> string" where
  "showIndex n = showDigits (Suc n) n"

text \<open>
  A location in the document is the list of the reference tokens of its JSON pointer;
  \<open>parsePointer\<close> reads the pointer \<open>/a/b\<close>, \<open>pointerOf\<close> writes the key \<open>#/a/b\<close> under which
  the reference finder reports it. Tokens are taken to need no escaping.
\<close>

definition parsePointer :: "string \<Rightarrow> string list" where
  "parsePointer p = tl (splitOn CHR ''/'' p)"

definition pointerOf :: "string list \<Rightarrow> string" where
  "pointerOf path = ''#'' @ concat (map (\<lambda>t. ''/'' @ t) path)"

text \<open>
  Modelled from the spec: \<open>utils.getObject\<close> and \<open>utils.setObject\<close> of \<open>lib/util/utils.ts\<close>,
  the Document Loader's \<open>resolvePointer(ref) -> Definition | NotFound\<close> and its writing
  counterpart, on a schema: \<open>getAt\<close> follows the tokens and is \<open>Absent\<close> where the location
  does not exist, \<open>setAt\<close> replaces the value at an existing location.
\<close>

fun getAt :: "Schema \<Rightarrow> string list \<Rightarrow> Schema" where
  "getAt s [] = s"
| "getAt s [t] =
     (if t = ''items'' then items s
      else if t = ''additionalProperties'' then additionalProperties s
      else Absent)"
| "getAt s (t # k # rest) =
     (if t = ''properties'' then
        (case properties s of None \<Rightarrow> Absent
         | Some ps \<Rightarrow> (case map_of ps k of None \<Rightarrow> Absent | Some x \<Rightarrow> getAt x rest))
      else if t = ''discriminatorMap'' then
        (case discriminatorMap s of None \<Rightarrow> Absent
         | Some ps \<Rightarrow> (case map_of ps k of None \<Rightarrow> Absent | Some x \<Rightarrow> getAt x rest))
      else if t = ''allOf'' then
        (case (allOf s, parseIndex k) of
           (Some xs, Some i) \<Rightarrow> (if i < length xs then getAt (xs ! i) rest else Absent)
         | _ \<Rightarrow> Absent)
      else if t = ''oneOf'' then
        (case (oneOf s, parseIndex k) of
           (Some xs, Some i) \<Rightarrow> (if i < length xs then getAt (xs ! i) rest else Absent)
         | _ \<Rightarrow> Absent)
      else if t = ''items'' then getAt (items s) (k # rest)
      else if t = ''additionalProperties'' then getAt (additionalProperties s) (k # rest)
      else Absent)"

fun setAt :: "Schema \<Rightarrow> string list \<Rightarrow> Schema \<Rightarrow> Schema" where
  "setAt s [] v = v"
| "setAt s [t] v =
     (if t = ''items'' then set_items v s
      else if t = ''additionalProperties'' then set_additionalProperties v s
      else s)"
| "setAt s (t # k # rest) v =
     (if t = ''properties'' then
        (case properties s of None \<Rightarrow> s
         | Some ps \<Rightarrow>
             (case map_of ps k of None \<Rightarrow> s
              | Some x \<Rightarrow> set_properties (Some (AList.update k (setAt x rest v) ps)) s))
      else if t = ''allOf'' then
        (case (allOf s, parseIndex k) of
           (Some xs, Some i) \<Rightarrow>
             (if i < length xs then set_allOf (Some (xs[i := setAt (xs ! i) rest v])) s else s)
         | _ \<Rightarrow> s)
      else if t = ''oneOf'' then
        (case (oneOf s, parseIndex k) of
           (Some xs, Some i) \<Rightarrow>
             (if i < length xs then set_oneOf (Some (xs[i := setAt (xs ! i) rest v])) s else s)
         | _ \<Rightarrow> s)
      else if t = ''items'' then set_items (setAt (items s) (k # rest) v) s
      else if t = ''additionalProperties'' then
        set_additionalProperties (setAt (additionalProperties s) (k # rest) v) s
      else s)"

text \<open>
  The document, \<open>specInJson\<close>, is taken to be its \<open>definitions\<close> section: every pointer
  that does not start with \<open>/definitions/<name>\<close> resolves to nothing.
\<close>

type_synonym DefinitionsObject = "(string \<times> Schema) list"

fun getObject :: "DefinitionsObject \<Rightarrow> string list \<Rightarrow> Schema" where
  "getObject defs (t # n # rest) =
     (if t = ''definitions''
      then (case map_of defs n of None \<Rightarrow> Absent | Some s \<Rightarrow> getAt s rest)
      else Absent)"
| "getObject defs _ = Absent"

fun setObject :: "DefinitionsObject \<Rightarrow> string list \<Rightarrow> Schema \<Rightarrow> DefinitionsObject" where
  "setObject defs (t # n # rest) v =
     (if t = ''definitions''
      then (case map_of defs n of None \<Rightarrow> defs
            | Some s \<Rightarrow> AList.update n (setAt s rest v) defs)
      else defs)"
| "setObject defs _ v = defs"

section \<open>specResolver.ts: composition flattening\<close>

text \<open>\<open>[...new Set(xs)]\<close>: the elements of \<open>xs\<close> in the order of their first occurrence.\<close>

definition new_Set :: "'a list \<Rightarrow> 'a list" where
  "new_Set xs = fold (\<lambda>x acc. if x \<in> set acc then acc else acc @ [x]) xs []"

text \<open>
  Modelled from the spec: \<open>utils.mergeObjects(source, target)\<close> of \<open>lib/util/utils.ts\<close>,
  called with the parent's property map as \<open>source\<close> and the child's as \<open>target\<close>: "merge
  the parent's properties into the child's property map (child properties win on name
  collision)". The result is the target with the source's other entries added.
\<close>

definition mergeObjects ::
  "(string \<times> Schema) list \<Rightarrow> (string \<times> Schema) list \<Rightarrow> (string \<times> Schema) list" where
  "mergeObjects source target =
     fold (\<lambda>(key, sourceProperty) result.
             if map_of result key = None then result @ [(key, sourceProperty)] else result)
          source target"

text \<open>
  \<open>mergeParentAllOfInChild\<close> writes to both of its arguments (the parent gets an empty
  \<open>properties\<close> when it has none), so the model returns the parent and the child.
\<close>

definition mergeParentAllOfInChild :: "Schema \<Rightarrow> Schema \<Rightarrow> error + Schema \<times> Schema" where
  "mergeParentAllOfInChild parent chld =
     (if \<not> isObj parent
      then Inl (Error (''parent must be of type '' @ [CHR 0x22] @ ''object'' @ [CHR 0x22] @ ''.''))
      else if \<not> isObj chld
      then Inl (Error (''child must be of type '' @ [CHR 0x22] @ ''object'' @ [CHR 0x22] @ ''.''))
      else
        let parent1 = (case properties parent of None \<Rightarrow> set_properties (Some []) parent
                       | Some ps \<Rightarrow> parent);
            child1 = (case properties chld of None \<Rightarrow> set_properties (Some []) chld
                      | Some ps \<Rightarrow> chld);
            child2 = set_properties
                       (Some (mergeObjects (case properties parent1 of None \<Rightarrow> [] | Some ps \<Rightarrow> ps)
                                           (case properties child1 of None \<Rightarrow> [] | Some ps \<Rightarrow> ps)))
                       child1;
            child3 = (case s_required (attrs parent1) of
                        None \<Rightarrow> child2
                      | Some parentRequired \<Rightarrow>
                          map_attrs (\<lambda>a. a\<lparr> s_required :=
                            Some (new_Set (parentRequired @
                                    (case s_required a of None \<Rightarrow> [] | Some r \<Rightarrow> r))) \<rparr>) child2);
            child4 = (if s_x_ms_azure_resource (attrs parent1) = Some True
                      then map_attrs (\<lambda>a. a\<lparr> s_x_ms_azure_resource :=
                                              s_x_ms_azure_resource (attrs parent1) \<rparr>) child3
                      else child3)
        in Inr (parent1, child4))"

text \<open>
  The resolver's state: the document, the keys of the memo \<open>resolvedAllOfModels\<close> (its
  values are only tested for presence), and a trace of the tree builder's node
  constructions and memo insertions, in the order in which they happen.
\<close>

datatype Event = New string | MemoSet string

record ResolverState =
  specInJson :: DefinitionsObject
  resolvedAllOfModels :: "string list"
  trace :: "Event list"

text \<open>
  One iteration of \<open>model.allOf.forEach\<close> in \<open>resolveAllOfInModel\<close>, for the item at index
  \<open>i\<close>; \<open>rec\<close> is the recursive call. A model is an object of the document and is named by
  its location: the parent an item refers to by \<open>$ref\<close> is at the pointer \<open>ref.slice(1)\<close>, an
  inline parent is the item itself. The child is written back first, then the parent (an
  inline parent lies inside the child).
\<close>

definition resolveAllOfItem ::
  "(string list \<Rightarrow> string option \<Rightarrow> ResolverState \<Rightarrow> ResolverState result) \<Rightarrow>
   string list \<Rightarrow> nat \<Rightarrow> ResolverState \<Rightarrow> ResolverState result" where
  "resolveAllOfItem rec modelPath i st =
     (let model = getObject (specInJson st) modelPath;
          item = (case allOf model of
                    Some xs \<Rightarrow> (if i < length xs then xs ! i else Absent)
                  | None \<Rightarrow> Absent)
      in if item = Absent then throws TypeError
         else
           let slicedRef = (case s_ref (attrs item) of
                              None \<Rightarrow> None
                            | Some r \<Rightarrow> (if r = [] then None else Some (tl r)));
               referencedPath = (case slicedRef of
                                   None \<Rightarrow> modelPath @ [''allOf'', showIndex i]
                                 | Some p \<Rightarrow> parsePointer p);
               referencedModel = getObject (specInJson st) referencedPath
           in if referencedModel = Absent then throws TypeError
              else
                bind (if allOf referencedModel \<noteq> None then rec referencedPath slicedRef st
                      else returns st)
                  (\<lambda>st1.
                     case mergeParentAllOfInChild (getObject (specInJson st1) referencedPath)
                                                  (getObject (specInJson st1) modelPath) of
                       Inl e \<Rightarrow> throws e
                     | Inr (parent1, child1) \<Rightarrow>
                         returns (st1\<lparr> specInJson :=
                                    setObject (setObject (specInJson st1) modelPath child1)
                                              referencedPath parent1,
                                  resolvedAllOfModels :=
                                    List.insert (case slicedRef of None \<Rightarrow> ''undefined'' | Some p \<Rightarrow> p)
                                                (resolvedAllOfModels st1) \<rparr>)))"

text \<open>
  \<open>resolveAllOfInModel(model, modelRef)\<close>, with the model given by its location. The
  recursion through parents has no bound of its own in the source, so the model takes
  fuel: \<open>None\<close> is a call that does not return within it.
\<close>

fun resolveAllOfInModel ::
  "nat \<Rightarrow> string list \<Rightarrow> string option \<Rightarrow> ResolverState \<Rightarrow> ResolverState result" where
  "resolveAllOfInModel 0 modelPath modelRef st = None"
| "resolveAllOfInModel (Suc n) modelPath modelRef st =
     (let model = getObject (specInJson st) modelPath
      in if \<not> isObj model
         then throws (Error (''model cannot be null or undefined and must of type ''
                        @ [CHR 0x22] @ ''object'' @ [CHR 0x22] @ ''.''))
         else if \<not> truthyStr modelRef
         then throws (Error (''model cannot be null or undefined and must of type ''
                        @ [CHR 0x22] @ ''string'' @ [CHR 0x22] @ ''.''))
         else
           let ref0 = (case modelRef of None \<Rightarrow> [] | Some r \<Rightarrow> r);
               ref1 = (if prefix ''#'' ref0 then tl ref0 else ref0)
           in if ref1 \<notin> set (resolvedAllOfModels st) then
                (case allOf model of
                   Some xs \<Rightarrow>
                     foldM (resolveAllOfItem (resolveAllOfInModel n) modelPath) [0 ..< length xs] st
                 | None \<Rightarrow>
                     returns (st\<lparr> resolvedAllOfModels := List.insert ref1 (resolvedAllOfModels st) \<rparr>))
              else returns st)"

definition resolveAllOfInDefinitions :: "nat \<Rightarrow> ResolverState \<Rightarrow> ResolverState result" where
  "resolveAllOfInDefinitions fuel st =
     foldM (\<lambda>modelName s.
              resolveAllOfInModel fuel [''definitions'', modelName]
                (Some (''/definitions/'' @ modelName)) s)
           (map fst (specInJson st)) st"

section \<open>specResolver.ts: polymorphism expansion\<close>

text \<open>
  Modelled from the spec: the class \<open>PolymorphicTree\<close> of \<open>lib/validators/polymorphicTree.ts\<close>,
  a node with a name and an ordered set of children keyed by name; \<open>addChildByObject\<close>
  adds a child unless one of that name is there.
\<close>

datatype PolymorphicTree =
  PolymorphicTree (node_name: string) (node_children: "(string \<times> PolymorphicTree) list")

definition addChildByObject :: "PolymorphicTree \<Rightarrow> PolymorphicTree \<Rightarrow> PolymorphicTree" where
  "addChildByObject childObj rootNode =
     (if map_of (node_children rootNode) (node_name childObj) = None
      then PolymorphicTree (node_name rootNode)
             (node_children rootNode @ [(node_name childObj, childObj)])
      else rootNode)"

type_synonym SubTreeMap = "(string \<times> PolymorphicTree) list"

text \<open>
  \<open>findChildren(name)\<close>: the names of the definitions with an \<open>allOf\<close> item whose \<open>$ref\<close> is
  \<open>#/definitions/name\<close>, in the order of the definitions. Reading \<open>item.$ref\<close> of an item
  that is \<open>null\<close> throws.
\<close>

definition findChildren :: "string \<Rightarrow> DefinitionsObject \<Rightarrow> error + string list" where
  "findChildren nm defs =
     (let reference = ''#/definitions/'' @ nm;
          withAllOf = filter (\<lambda>(definitionName, defn). allOf defn \<noteq> None) defs
      in if blank nm
         then Inl (Error ''name is a required property of type string and it cannot be an empty string.'')
         else if \<exists>(definitionName, defn) \<in> set withAllOf.
              Absent \<in> set (case allOf defn of None \<Rightarrow> [] | Some xs \<Rightarrow> xs)
         then Inl TypeError
         else Inr (new_Set (map fst
                (filter (\<lambda>(definitionName, defn).
                           \<exists>item \<in> set (case allOf defn of None \<Rightarrow> [] | Some xs \<Rightarrow> xs).
                             s_ref (attrs item) = Some reference)
                        withAllOf))))"

text \<open>
  The first part of \<open>createPolymorphicTree\<close>: the definition \<open>nm\<close> gets \<open>type: "object"\<close>, the
  discriminator joins its \<open>required\<close> list, and the discriminator property \<open>d\<close> loses its
  \<open>$ref\<close>, gets a \<open>type\<close> and gets its \<open>enum\<close>. Assigning \<open>d.type\<close> on a scalar \<open>d\<close> throws.
  \<open>constrainProperty\<close> is what the block does to \<open>d\<close>, \<open>val\<close> being the value
  \<open>definition["x-ms-discriminator-value"] || name\<close>.
\<close>

definition discriminatorValueOf :: "string \<Rightarrow> Schema \<Rightarrow> string" where
  "discriminatorValueOf nm defn =
     (if truthyStr (s_x_ms_discriminator_value (attrs defn))
      then (case s_x_ms_discriminator_value (attrs defn) of Some v \<Rightarrow> v | None \<Rightarrow> nm)
      else nm)"

definition constrainProperty :: "string \<Rightarrow> Schema \<Rightarrow> DefinitionsObject \<Rightarrow> Schema \<Rightarrow> Schema" where
  "constrainProperty val defn defs d =
     (let d1 = (if truthyStr (s_ref (attrs d))
                then map_attrs (\<lambda>a. a\<lparr> s_ref := None \<rparr>)
                       (if s_enum (attrs d) = None
                        then (case map_of defs (afterLastSlash
                                      (case s_ref (attrs d) of Some r \<Rightarrow> r | None \<Rightarrow> [])) of
                                None \<Rightarrow> d
                              | Some refDefinition \<Rightarrow>
                                  if truthySchema refDefinition
                                  then map_attrs (\<lambda>a. a\<lparr> s_enum := s_enum (attrs refDefinition) \<rparr>) d
                                  else d)
                        else d)
                else d);
          d2 = map_attrs (\<lambda>a. a\<lparr> s_x_ms_enum :=
                 (case s_x_ms_enum a of None \<Rightarrow> None | Some m \<Rightarrow> Some (Some False)) \<rparr>) d1;
          d3 = (if \<not> truthyStr (s_type (attrs d2))
                then map_attrs (\<lambda>a. a\<lparr> s_type := Some ''string'' \<rparr>) d2 else d2)
      in (case s_enum (attrs d3) of
            Some baseClassDiscriminatorValue \<Rightarrow>
              if truthyStr (s_discriminator (attrs defn))
              then (if val \<notin> set baseClassDiscriminatorValue
                    then map_attrs (\<lambda>a. a\<lparr> s_enum :=
                           Some (val # baseClassDiscriminatorValue) \<rparr>) d3
                    else d3)
              else map_attrs (\<lambda>a. a\<lparr> s_enum := Some [val] \<rparr>) d3
          | None \<Rightarrow> map_attrs (\<lambda>a. a\<lparr> s_enum := Some [val] \<rparr>) d3))"

definition requireDiscriminator :: "string \<Rightarrow> SchemaAttrs \<Rightarrow> SchemaAttrs" where
  "requireDiscriminator discriminator a =
     a\<lparr> s_required :=
          (case s_required a of
             None \<Rightarrow> Some [discriminator]
           | Some rq \<Rightarrow> (if discriminator \<in> set rq then Some rq
                         else Some (rq @ [discriminator]))) \<rparr>"

definition constrainDiscriminator ::
  "string \<Rightarrow> string \<Rightarrow> DefinitionsObject \<Rightarrow> error + DefinitionsObject" where
  "constrainDiscriminator nm discriminator defs =
     (case map_of defs nm of
        None \<Rightarrow> Inr defs
      | Some defn \<Rightarrow>
          (case properties defn of
             None \<Rightarrow> Inr defs
           | Some props \<Rightarrow>
               let defn1 = map_attrs (\<lambda>a. a\<lparr> s_type := Some ''object'' \<rparr>) defn in
               (case map_of props discriminator of
                  None \<Rightarrow> Inr (AList.update nm defn1 defs)
                | Some d \<Rightarrow>
                    if \<not> truthySchema d then Inr (AList.update nm defn1 defs)
                    else if \<not> isObj d then Inl TypeError
                    else
                      Inr (AList.update nm
                             (set_properties
                                (Some (AList.update discriminator
                                         (constrainProperty (discriminatorValueOf nm defn) defn defs d)
                                         props))
                                (map_attrs (requireDiscriminator discriminator) defn1))
                             defs))))"

text \<open>
  \<open>createPolymorphicTree(name, discriminator, subTreeMap)\<close>. The node is constructed, the
  definition constrained, the children found and built one after the other, and only
  then is the node stored in \<open>subTreeMap\<close>. The recursion has no bound of its own in the
  source, so the model takes fuel.
\<close>

fun createPolymorphicTree ::
  "nat \<Rightarrow> string \<Rightarrow> string \<Rightarrow> SubTreeMap \<Rightarrow> ResolverState \<Rightarrow>
   (PolymorphicTree \<times> SubTreeMap \<times> ResolverState) result" where
  "createPolymorphicTree 0 nm discriminator subTreeMap st = None"
| "createPolymorphicTree (Suc n) nm discriminator subTreeMap st =
     (if blank nm
      then throws (Error ''name is a required property of type string and it cannot be an empty string.'')
      else if blank discriminator
      then throws (Error ''discriminator is a required property of type string and it cannot be an empty string.'')
      else
        let st0 = st\<lparr> trace := trace st @ [New nm] \<rparr> in
        (case constrainDiscriminator nm discriminator (specInJson st0) of
           Inl e \<Rightarrow> throws e
         | Inr defs1 \<Rightarrow>
             (case findChildren nm defs1 of
                Inl e \<Rightarrow> throws e
              | Inr childNames \<Rightarrow>
                  bind (foldM (\<lambda>childName (rootNode, m, s).
                                 bind (createPolymorphicTree n childName discriminator m s)
                                   (\<lambda>(childObj, m1, s1).
                                      returns (addChildByObject childObj rootNode, m1, s1)))
                              childNames
                              (PolymorphicTree nm [], subTreeMap, st0\<lparr> specInJson := defs1 \<rparr>))
                    (\<lambda>(rootNode, m, s).
                       returns (rootNode, AList.update nm rootNode m,
                                s\<lparr> trace := trace s @ [MemoSet nm] \<rparr>)))))"

text \<open>\<open>buildOneOfReferences(rootNode)\<close>: a set of fresh objects, so nothing is merged.\<close>

fun buildOneOfReferences :: "PolymorphicTree \<Rightarrow> Schema list" where
  "buildOneOfReferences (PolymorphicTree nm chn) =
     refTo (''#/definitions/'' @ nm) # concat (map (\<lambda>kc. buildOneOfReferences (snd kc)) chn)"

text \<open>
  \<open>updateReferencesWithOneOf(subTreeMap, references)\<close>; \<open>references\<close> maps the key of every
  reference site (\<open>#\<close> and its JSON pointer) to the \<open>uri\<close> it refers to.
\<close>

definition locationsToBeUpdated :: "PolymorphicTree \<Rightarrow> (string \<times> string) list \<Rightarrow> string list" where
  "locationsToBeUpdated node references =
     map fst (filter (\<lambda>(key, uri).
                        uri = ''#/definitions/'' @ node_name node \<and>
                        \<not> includesStr key ''allOf'' \<and> \<not> includesStr key ''oneOf'')
                     references)"

definition replaceWithOneOf ::
  "PolymorphicTree \<Rightarrow> string \<Rightarrow> DefinitionsObject \<Rightarrow> DefinitionsObject result" where
  "replaceWithOneOf node location spec =
     (let slicedLocation = parsePointer (tl location);
          obj = getObject spec slicedLocation
      in if \<not> truthySchema obj then returns spec
         else if \<not> isObj obj then throws TypeError
         else returns (setObject spec slicedLocation
                (set_oneOf (Some (buildOneOfReferences node))
                   (map_attrs (\<lambda>a. if truthyStr (s_ref a) then a\<lparr> s_ref := None \<rparr> else a) obj))))"

definition updateReferencesWithOneOf ::
  "SubTreeMap \<Rightarrow> (string \<times> string) list \<Rightarrow> ResolverState \<Rightarrow> ResolverState result" where
  "updateReferencesWithOneOf subTreeMap references st =
     bind (foldM (\<lambda>node spec.
                    if length (node_children node) > 0
                    then foldM (replaceWithOneOf node) (locationsToBeUpdated node references) spec
                    else returns spec)
                 (map snd subTreeMap) (specInJson st))
       (\<lambda>spec. returns (st\<lparr> specInJson := spec \<rparr>))"

text \<open>
  Modelled from the spec: \<open>jsonRefs.findRefs\<close> of \<open>lib/util/jsonRefs.ts\<close>, the reference
  sites of the document: every object with a \<open>$ref\<close>, under the key \<open>#\<close> followed by its
  JSON pointer, with the reference it holds.
\<close>

fun refsOfSchema :: "string list \<Rightarrow> Schema \<Rightarrow> (string \<times> string) list"
  and refsOfProperties :: "string list \<Rightarrow> (string \<times> Schema) list \<Rightarrow> (string \<times> string) list"
  and refsOfList :: "string list \<Rightarrow> nat \<Rightarrow> Schema list \<Rightarrow> (string \<times> string) list" where
  "refsOfSchema path Absent = []"
| "refsOfSchema path (NonObject x) = []"
| "refsOfSchema path (SchemaObject a p ao oo it ap dm sc) =
     (case s_ref a of
        Some r \<Rightarrow> [(pointerOf path, r)]
      | None \<Rightarrow>
          (case p of None \<Rightarrow> [] | Some ps \<Rightarrow> refsOfProperties (path @ [''properties'']) ps) @
          (case ao of None \<Rightarrow> [] | Some xs \<Rightarrow> refsOfList (path @ [''allOf'']) 0 xs) @
          (case oo of None \<Rightarrow> [] | Some xs \<Rightarrow> refsOfList (path @ [''oneOf'']) 0 xs) @
          refsOfSchema (path @ [''items'']) it @
          refsOfSchema (path @ [''additionalProperties'']) ap)"
| "refsOfProperties path [] = []"
| "refsOfProperties path (kv # ps) =
     refsOfSchema (path @ [fst kv]) (snd kv) @ refsOfProperties path ps"
| "refsOfList path i [] = []"
| "refsOfList path i (s # xs) =
     refsOfSchema (path @ [showIndex i]) s @ refsOfList path (Suc i) xs"

definition findRefs :: "DefinitionsObject \<Rightarrow> (string \<times> string) list" where
  "findRefs defs = refsOfProperties [''definitions''] defs"

text \<open>
  \<open>resolveDiscriminator\<close>: the reference sites are found once, before any tree is built;
  a tree is built for a definition with a discriminator unless \<open>subTreeMap\<close> has one under
  its name; the references are updated after each such definition. Reading
  \<open>model.discriminator\<close> of a definition that is \<open>null\<close> throws.
\<close>

definition resolveDiscriminatorEntry ::
  "nat \<Rightarrow> (string \<times> string) list \<Rightarrow> string \<Rightarrow> SubTreeMap \<times> ResolverState \<Rightarrow>
   (SubTreeMap \<times> ResolverState) result" where
  "resolveDiscriminatorEntry fuel references modelName ms =
     (case ms of (subTreeMap, st) \<Rightarrow>
        (case map_of (specInJson st) modelName of
           None \<Rightarrow> returns ms
         | Some model \<Rightarrow>
             if model = Absent then throws TypeError
             else
               (case s_discriminator (attrs model) of
                  None \<Rightarrow> returns ms
                | Some discriminator \<Rightarrow>
                    if discriminator = [] then returns ms
                    else
                      bind (case map_of subTreeMap modelName of
                              Some rootNode \<Rightarrow> returns (subTreeMap, st)
                            | None \<Rightarrow>
                                bind (createPolymorphicTree fuel modelName discriminator subTreeMap st)
                                  (\<lambda>(rootNode, m, s). returns (m, s)))
                        (\<lambda>(m, s).
                           bind (updateReferencesWithOneOf m references s)
                             (\<lambda>s1. returns (m, s1))))))"

definition resolveDiscriminator :: "nat \<Rightarrow> ResolverState \<Rightarrow> (SubTreeMap \<times> ResolverState) result" where
  "resolveDiscriminator fuel st =
     foldM (resolveDiscriminatorEntry fuel (findRefs (specInJson st)))
           (map fst (specInJson st)) ([], st)"

section \<open>swaggerMocker.ts: the example generator\<close>

text \<open>
  The generator's state: the payload cache (\<open>exampleCache\<close>), the mock cache, the state of
  the random source behind \<open>mocker.mock\<close> and \<open>util.randomKey\<close>, and what was written to the
  log and the console.
\<close>

record GeneratorState =
  exampleCache :: "(string \<times> Val) list"
  mockCache :: "(string \<times> Val) list"
  entropy :: nat
  logged :: "string list"

text \<open>
  The collaborators whose code is outside the generator, as parameters:
  \<open>jsonLoader.resolveRefObj\<close> (\<open>Absent\<close> when it yields nothing), \<open>util.isObject\<close>,
  \<open>mocker.mock(spec, name, arrItem)\<close> and \<open>util.randomKey()\<close> with the random source they draw
  from, \<open>buildItemOption\<close> and \<open>reBuildExample\<close> (with the schema rule of the example rule set),
  and the parameter rule of the example rule set, \<open>None\<close> when there is none. The last two
  are the runtime's: the names that the operator \<open>in\<close> finds on every plain object and on
  every array besides their own keys and indices, that is the names on the prototype
  chain (\<open>constructor\<close>, \<open>toString\<close> and the like) and, for an array, \<open>length\<close>.
\<close>

record Collaborators =
  resolveRefObj :: "Schema \<Rightarrow> Schema"
  isObject :: "Schema \<Rightarrow> bool"
  mock :: "nat \<Rightarrow> Schema \<Rightarrow> string \<Rightarrow> Val \<Rightarrow> Val \<times> nat"
  randomKey :: "nat \<Rightarrow> string \<times> nat"
  buildItemOption :: "Schema \<Rightarrow> Val"
  reBuildExample :: "Val \<Rightarrow> bool \<Rightarrow> Schema \<Rightarrow> Val"
  onParameter :: "(Schema \<Rightarrow> bool) option"
  objectPrototype :: "string list"
  arrayPrototype :: "string list"

text \<open>
  Property access on a value, \<open>x[k]\<close> and \<open>x[k] = v\<close>, for own properties: reading a
  property of \<open>undefined\<close> or \<open>null\<close> throws, a scalar has none, and writing one to a scalar
  throws (the module is in strict mode). An array has its elements; a named property
  written to an array is read by nothing that follows, so the array is left as it is.
  The operator \<open>k in x\<close> throws unless \<open>x\<close> is an object or an array, and holds for the own
  keys of \<open>x\<close> and for the names \<open>x\<close> inherits.
\<close>

definition arrayIndex :: "string \<Rightarrow> nat option" where
  "arrayIndex k = (case parseIndex k of
                     Some i \<Rightarrow> (if showIndex i = k then Some i else None)
                   | None \<Rightarrow> None)"

fun getProp :: "Val \<Rightarrow> string \<Rightarrow> error + Val" where
  "getProp VUndefined k = Inl TypeError"
| "getProp VNull k = Inl TypeError"
| "getProp (VScalar s) k = Inr VUndefined"
| "getProp (VArr xs) k =
     Inr (case arrayIndex k of
            Some i \<Rightarrow> (if i < length xs then xs ! i else VUndefined)
          | None \<Rightarrow> VUndefined)"
| "getProp (VObj kvs) k = Inr (case map_of kvs k of Some v \<Rightarrow> v | None \<Rightarrow> VUndefined)"

fun setProp :: "Val \<Rightarrow> string \<Rightarrow> Val \<Rightarrow> error + Val" where
  "setProp VUndefined k v = Inl TypeError"
| "setProp VNull k v = Inl TypeError"
| "setProp (VScalar s) k v = Inl TypeError"
| "setProp (VArr xs) k v =
     Inr (case arrayIndex k of
            Some i \<Rightarrow> VArr ((xs @ replicate (Suc i - length xs) VUndefined)[i := v])
          | None \<Rightarrow> VArr xs)"
| "setProp (VObj kvs) k v = Inr (VObj (AList.update k v kvs))"

fun hasKey :: "Collaborators \<Rightarrow> Val \<Rightarrow> string \<Rightarrow> error + bool" where
  "hasKey env (VObj kvs) k = Inr (map_of kvs k \<noteq> None \<or> k \<in> set (objectPrototype env))"
| "hasKey env (VArr xs) k =
     Inr ((case arrayIndex k of Some i \<Rightarrow> i < length xs | None \<Rightarrow> False) \<or>
          k \<in> set (arrayPrototype env))"
| "hasKey env x k = Inl TypeError"

text \<open>\<open>{...a, ...b}\<close>.\<close>

definition spread :: "(string \<times> 'a) list \<Rightarrow> (string \<times> 'a) list \<Rightarrow> (string \<times> 'a) list" where
  "spread a b = fold (\<lambda>(k, v) acc. AList.update k v acc) b a"

text \<open>
  Modelled from the spec: \<open>createLeafItem\<close>, \<open>createTrunkItem\<close> and \<open>MockerCache.checkAndCache\<close>
  of \<open>lib/generator/exampleCache.ts\<close>. A cache item is a leaf with a scalar value or a trunk
  with a collection of children, and carries its options; the mock cache is written once
  per key, under the key the cache probe reads.
\<close>

definition createLeafItem :: "Val \<Rightarrow> Val \<Rightarrow> Val" where
  "createLeafItem v opts =
     VObj [(''value'', v), (''options'', opts), (''isLeaf'', VScalar (SBool True))]"

definition createTrunkItem :: "Val \<Rightarrow> Val \<Rightarrow> Val" where
  "createTrunkItem chld opts =
     VObj [(''child'', chld), (''options'', opts), (''isLeaf'', VScalar (SBool False))]"

text \<open>\<open>schema.$ref.split("#")[1]\<close>.\<close>

definition cacheKey :: "string \<Rightarrow> string option" where
  "cacheKey r = (case splitOn CHR ''#'' r of a # k # rest \<Rightarrow> Some k | _ \<Rightarrow> None)"

definition checkAndCache :: "Schema \<Rightarrow> Val \<Rightarrow> GeneratorState \<Rightarrow> GeneratorState" where
  "checkAndCache schema cacheItem st =
     (case s_ref (attrs schema) of
        None \<Rightarrow> st
      | Some r \<Rightarrow>
          (case cacheKey r of
             None \<Rightarrow> st
           | Some k \<Rightarrow>
               (if map_of (mockCache st) k = None
                then st\<lparr> mockCache := mockCache st @ [(k, cacheItem)] \<rparr>
                else st)))"

text \<open>
  \<open>getCache(schema)\<close>: the payload cache is asked first, then the mock cache; \<open>None\<close> is the
  result \<open>undefined\<close>.
\<close>

definition getCache :: "GeneratorState \<Rightarrow> Schema \<Rightarrow> Val option" where
  "getCache st schema =
     (case s_ref (attrs schema) of
        None \<Rightarrow> None
      | Some r \<Rightarrow>
          (case cacheKey r of
             None \<Rightarrow> None
           | Some k \<Rightarrow>
               (case map_of (exampleCache st) k of
                  Some c \<Rightarrow> Some c
                | None \<Rightarrow> map_of (mockCache st) k)))"

text \<open>
  The visited set is a \<open>Set\<close> object handed from call to call and changed in place, so
  every function that gets it returns it. \<open>"$ref" in schema\<close> throws unless \<open>schema\<close> is an
  object. \<open>getDefSpec\<close> gives \<open>undefined\<close> when what the loader yields is falsy.
\<close>

type_synonym Visited = "string set"

definition removeFromSet :: "Schema \<Rightarrow> Visited \<Rightarrow> Visited result" where
  "removeFromSet schema visited =
     (if \<not> isObj schema then throws TypeError
      else (case s_ref (attrs schema) of
              None \<Rightarrow> returns visited
            | Some r \<Rightarrow> returns (if r \<in> visited then visited - {r} else visited)))"

definition getDefSpec :: "Collaborators \<Rightarrow> Schema \<Rightarrow> Visited \<Rightarrow> (Schema \<times> Visited) result" where
  "getDefSpec env schema visited =
     (if \<not> isObj schema then throws TypeError
      else returns ((if truthySchema (resolveRefObj env schema) then resolveRefObj env schema
                     else Absent),
                    (case s_ref (attrs schema) of None \<Rightarrow> visited | Some r \<Rightarrow> insert r visited)))"

text \<open>
  \<open>getProperties\<close>, \<open>getDiscriminator\<close> and \<open>getRequiredProperties\<close> follow \<open>allOf\<close> through
  \<open>getDefSpec\<close> with no bound of their own ("circular inherit will not be handled"), so
  they take fuel.
\<close>

fun getProperties ::
  "Collaborators \<Rightarrow> nat \<Rightarrow> Schema \<Rightarrow> Visited \<Rightarrow> ((string \<times> Schema) list \<times> Visited) result" where
  "getProperties env 0 definitionSpec visited = None"
| "getProperties env (Suc n) definitionSpec visited =
     (if definitionSpec = Absent then throws TypeError
      else
        bind (foldM (\<lambda>item (props, vis).
                       bind (getDefSpec env item vis) (\<lambda>(content, vis1).
                       bind (getProperties env n content vis1) (\<lambda>(ps, vis2).
                       bind (removeFromSet item vis2) (\<lambda>vis3.
                       returns (spread props ps, vis3)))))
                    (case allOf definitionSpec of None \<Rightarrow> [] | Some xs \<Rightarrow> xs)
                    ([], visited))
          (\<lambda>(props, vis).
             returns (spread props (case properties definitionSpec of None \<Rightarrow> [] | Some ps \<Rightarrow> ps),
                      vis)))"

text \<open>
  In \<open>getDiscriminator\<close> the loop is \<open>allOf.some\<close>: it stops at the first item that gives a
  truthy discriminator, and the variable keeps what the last item looked at gave.
\<close>

fun getDiscriminator ::
  "Collaborators \<Rightarrow> nat \<Rightarrow> Schema \<Rightarrow> Visited \<Rightarrow> (string option \<times> Visited) result" where
  "getDiscriminator env 0 definitionSpec visited = None"
| "getDiscriminator env (Suc n) definitionSpec visited =
     (if definitionSpec = Absent then throws TypeError
      else if truthyStr (s_discriminator (attrs definitionSpec))
      then returns (s_discriminator (attrs definitionSpec), visited)
      else
        foldM (\<lambda>item (discriminator, vis).
                 if truthyStr discriminator then returns (discriminator, vis)
                 else
                   bind (getDefSpec env item vis) (\<lambda>(content, vis1).
                   bind (getDiscriminator env n content vis1) (\<lambda>(d, vis2).
                   bind (removeFromSet item vis2) (\<lambda>vis3.
                   returns (d, vis3)))))
              (case allOf definitionSpec of None \<Rightarrow> [] | Some xs \<Rightarrow> xs)
              (None, visited))"

fun getRequiredProperties :: "Collaborators \<Rightarrow> nat \<Rightarrow> Schema \<Rightarrow> string list result" where
  "getRequiredProperties env 0 definitionSpec = None"
| "getRequiredProperties env (Suc n) definitionSpec =
     (if definitionSpec = Absent then throws TypeError
      else
        foldM (\<lambda>item requiredProperties.
                 bind (getDefSpec env item {}) (\<lambda>(content, vis1).
                 bind (getRequiredProperties env n content) (\<lambda>rs.
                 returns (requiredProperties @ rs))))
              (case allOf definitionSpec of None \<Rightarrow> [] | Some xs \<Rightarrow> xs)
              (case s_required (attrs definitionSpec) of None \<Rightarrow> [] | Some rq \<Rightarrow> rq))"

text \<open>
  What a generation call gives back: the value (\<open>VUndefined\<close> for \<open>undefined\<close>), the visited
  set it was handed, as it left it, and the state.
\<close>

type_synonym Generated = "Val \<times> Visited \<times> GeneratorState"

type_synonym Generator =
  "string \<Rightarrow> Schema \<Rightarrow> Val \<Rightarrow> Visited \<Rightarrow> bool \<Rightarrow> string option \<Rightarrow> GeneratorState \<Rightarrow> Generated result"

text \<open>
  \<open>mockForDiscriminator(schema, example, discriminator, isRequest, visited)\<close>; \<open>rec\<close> is the
  call of \<open>mockCachedObj\<close>. The subtype is generated from the seed \<open>{}\<close> with a new visited
  set. \<open>removeFromSet\<close> is applied to the \<open>schema\<close> this function was given.
\<close>

definition mockForDiscriminator ::
  "Collaborators \<Rightarrow> nat \<Rightarrow> Generator \<Rightarrow> Schema \<Rightarrow> Val \<Rightarrow> string \<Rightarrow> bool \<Rightarrow> Visited \<Rightarrow>
   GeneratorState \<Rightarrow> Generated result" where
  "mockForDiscriminator env n rec schema example discriminator isRequest visited st =
     bind (getDefSpec env schema visited) (\<lambda>(disDetail, vis1).
       if disDetail = Absent then throws TypeError
       else
         (case discriminatorMap disDetail of
            Some ((firstKey, firstSpec) # dm) \<Rightarrow>
              bind (getProperties env n disDetail {}) (\<lambda>(props, vis0).
                let prop = (case map_of props discriminator of None \<Rightarrow> Absent | Some p \<Rightarrow> p);
                    discriminatorValue =
                      (if truthySchema prop \<and> s_enum (attrs prop) \<noteq> None
                       then (case s_enum (attrs prop) of Some (v # vs) \<Rightarrow> Some v | _ \<Rightarrow> None)
                       else Some firstKey);
                    discriminatorSpec =
                      (case map_of ((firstKey, firstSpec) # dm)
                              (case discriminatorValue of None \<Rightarrow> ''undefined'' | Some v \<Rightarrow> v) of
                         None \<Rightarrow> Absent
                       | Some s \<Rightarrow> s)
                in if \<not> truthySchema discriminatorSpec
                   then bind (removeFromSet schema vis1) (\<lambda>vis2. returns (example, vis2, st))
                   else
                     bind (rec discriminator discriminatorSpec (VObj []) {} isRequest
                             discriminatorValue st) (\<lambda>(cacheItem, vis0, st1).
                     bind (removeFromSet schema vis1) (\<lambda>vis2.
                     returns (if truthy cacheItem then cacheItem else VUndefined, vis2, st1))))
          | _ \<Rightarrow> bind (removeFromSet schema vis1) (\<lambda>vis2. returns (VUndefined, vis2, st))))"

text \<open>One iteration of \<open>Object.keys(properties).forEach\<close> in \<open>mockCachedObj\<close>.\<close>

definition mockProperty ::
  "Collaborators \<Rightarrow> Generator \<Rightarrow> string \<Rightarrow> (string \<times> Schema) list \<Rightarrow> bool \<Rightarrow> string option \<Rightarrow>
   string \<Rightarrow> Generated \<Rightarrow> Generated result" where
  "mockProperty env rec objName props isRequest discriminatorValue key g =
     (case g of (example, visited, st) \<Rightarrow>
        let propSchema = (case map_of props key of None \<Rightarrow> Absent | Some s \<Rightarrow> s) in
        if key = objName \<and> truthyStr discriminatorValue
        then (case setProp example key
                     (createLeafItem
                        (VScalar (SStr (case discriminatorValue of None \<Rightarrow> [] | Some v \<Rightarrow> v)))
                        (buildItemOption env propSchema)) of
                Inl e \<Rightarrow> throws e
              | Inr example1 \<Rightarrow> returns (example1, visited, st))
        else
          (case getProp example key of
             Inl e \<Rightarrow> throws e
           | Inr seed \<Rightarrow>
               bind (rec key propSchema seed visited isRequest discriminatorValue st)
                 (\<lambda>(v, vis1, st1).
                    case setProp example key v of
                      Inl e \<Rightarrow> throws e
                    | Inr example1 \<Rightarrow> returns (example1, vis1, st1))))"

text \<open>The \<open>additionalProperties\<close> block of \<open>mockCachedObj\<close>.\<close>

definition mockAdditionalProperties ::
  "Collaborators \<Rightarrow> Generator \<Rightarrow> string \<Rightarrow> Schema \<Rightarrow> (string \<times> Schema) list \<Rightarrow> bool \<Rightarrow>
   string option \<Rightarrow> Generated \<Rightarrow> Generated result" where
  "mockAdditionalProperties env rec objName definitionSpec props isRequest discriminatorValue g =
     (case g of (example, visited, st) \<Rightarrow>
        if \<not> isObj definitionSpec then throws TypeError
        else if \<not> truthySchema (additionalProperties definitionSpec) then returns g
        else
          (case randomKey env (entropy st) of (newKey, e1) \<Rightarrow>
             let st0 = st\<lparr> entropy := e1 \<rparr> in
             if map_of props newKey \<noteq> None \<or> newKey \<in> set (objectPrototype env)
             then returns (example, visited,
                    st0\<lparr> logged := logged st0 @
                           [''generate additionalProperties for '' @ objName @ '' fail''] \<rparr>)
             else
               bind (rec newKey (additionalProperties definitionSpec) VUndefined visited isRequest
                       discriminatorValue st0)
                 (\<lambda>(v, vis1, st1).
                    case setProp example newKey v of
                      Inl e \<Rightarrow> throws e
                    | Inr example1 \<Rightarrow> returns (example1, vis1, st1))))"

text \<open>
  The end of \<open>mockCachedObj\<close>, from \<open>removeFromSet\<close> on: the example is wrapped into a cache
  item, marked as mocked, given the required names and offered to the mock cache.
  \<open>typeof null\<close> is \<open>"object"\<close> and \<open>Object.entries(null)\<close> throws.
\<close>

definition cacheResult ::
  "Collaborators \<Rightarrow> nat \<Rightarrow> Schema \<Rightarrow> Schema \<Rightarrow> Generated \<Rightarrow> Generated result" where
  "cacheResult env n schema definitionSpec g =
     (case g of (example, visited, st) \<Rightarrow>
        bind (removeFromSet schema visited) (\<lambda>vis1.
        bind (case example of
                VArr xs \<Rightarrow> returns (createTrunkItem (VArr xs) (buildItemOption env definitionSpec))
              | VObj kvs \<Rightarrow> returns (createTrunkItem (VObj kvs) (buildItemOption env definitionSpec))
              | VNull \<Rightarrow> throws TypeError
              | _ \<Rightarrow> returns (createLeafItem example (buildItemOption env definitionSpec)))
          (\<lambda>cacheItem0.
        bind (case setProp cacheItem0 ''isMocked'' (VScalar (SBool True)) of
                Inl e \<Rightarrow> throws e | Inr c \<Rightarrow> returns c) (\<lambda>cacheItem1.
        bind (getRequiredProperties env n definitionSpec) (\<lambda>requiredProperties.
        bind (if length requiredProperties > 0
              then (case setProp cacheItem1 ''required''
                           (VArr (map (\<lambda>r. VScalar (SStr r)) requiredProperties)) of
                      Inl e \<Rightarrow> throws e | Inr c \<Rightarrow> returns c)
              else returns cacheItem1) (\<lambda>cacheItem.
        returns (cacheItem, vis1, checkAndCache schema cacheItem st)))))))"

text \<open>
  \<open>mockCachedObj(objName, schema, example, visited, isRequest, discriminatorValue)\<close>; \<open>rec\<close> is
  its recursive call and \<open>n\<close> the fuel of the \<open>allOf\<close> walks.
\<close>

definition mockCachedObjBody ::
  "Collaborators \<Rightarrow> nat \<Rightarrow> Generator \<Rightarrow> Generator" where
  "mockCachedObjBody env n rec objName schema example visited isRequest discriminatorValue st =
     (if \<not> isObj schema
      then returns (VUndefined, visited, st\<lparr> logged := logged st @ [''invalid schema.''] \<rparr>)
      else if (case s_ref (attrs schema) of None \<Rightarrow> False | Some r \<Rightarrow> r \<in> visited)
      then returns (VUndefined, visited, st)
      else if (case getCache st schema of None \<Rightarrow> False | Some c \<Rightarrow> truthy c)
      then returns ((case getCache st schema of None \<Rightarrow> VUndefined | Some c \<Rightarrow> c), visited, st)
      else
        bind (getDefSpec env schema visited) (\<lambda>(definitionSpec, vis1).
          if isObject env definitionSpec then
            bind (getProperties env n definitionSpec vis1) (\<lambda>(props, vis2).
            let example1 = (if truthy example then example else VObj []) in
            bind (getDiscriminator env n definitionSpec vis2) (\<lambda>(discriminator, vis3).
              if truthyStr discriminator \<and> \<not> truthyStr discriminatorValue \<and>
                 (case discriminator of None \<Rightarrow> False | Some d \<Rightarrow> d \<in> set (map fst props))
              then
                bind (mockForDiscriminator env n rec definitionSpec example1
                        (case discriminator of None \<Rightarrow> [] | Some d \<Rightarrow> d) isRequest vis3 st)
                  (\<lambda>(r, vis4, st1). returns (if truthy r then r else VUndefined, vis4, st1))
              else
                bind (foldM (mockProperty env rec objName props isRequest discriminatorValue)
                            (map fst props) (example1, vis3, st)) (\<lambda>g1.
                bind (mockAdditionalProperties env rec objName definitionSpec props isRequest
                        discriminatorValue g1) (\<lambda>g2.
                cacheResult env n schema definitionSpec g2))))
          else if definitionSpec = Absent then throws TypeError
          else if s_type (attrs definitionSpec) = Some ''array'' then
            let example1 = (if truthy example then example else VArr []) in
            (case getProp example1 ''0'' of
               Inl e \<Rightarrow> throws e
             | Inr seed \<Rightarrow>
                 bind (rec (objName @ [CHR 0x27] @ ''s item'') (items definitionSpec) seed vis1
                         isRequest None st) (\<lambda>(arrItem, vis2, st1).
                 (case mock env (entropy st1) definitionSpec objName arrItem of
                    (example2, e1) \<Rightarrow>
                      cacheResult env n schema definitionSpec
                        (example2, vis2, st1\<lparr> entropy := e1 \<rparr>))))
          else if truthy example
          then cacheResult env n schema definitionSpec (example, vis1, st)
          else
            (case mock env (entropy st) definitionSpec objName VUndefined of
               (example2, e1) \<Rightarrow>
                 cacheResult env n schema definitionSpec (example2, vis1, st\<lparr> entropy := e1 \<rparr>))))"

text \<open>
  The recursion of \<open>mockCachedObj\<close> has no bound of its own in the source, so the model
  takes fuel: \<open>None\<close> is a call that does not return within it.
\<close>

fun mockCachedObj :: "Collaborators \<Rightarrow> nat \<Rightarrow> Generator" where
  "mockCachedObj env 0 objName schema example visited isRequest discriminatorValue st = None"
| "mockCachedObj env (Suc n) objName schema example visited isRequest discriminatorValue st =
     mockCachedObjBody env n (mockCachedObj env n)
       objName schema example visited isRequest discriminatorValue st"

text \<open>\<open>getMockCachedObj(objName, schema, isRequest)\<close> and \<open>mockObj\<close>.\<close>

definition getMockCachedObj ::
  "Collaborators \<Rightarrow> nat \<Rightarrow> string \<Rightarrow> Schema \<Rightarrow> bool \<Rightarrow> GeneratorState \<Rightarrow> Generated result" where
  "getMockCachedObj env fuel objName schema isRequest st =
     mockCachedObj env fuel objName schema VUndefined {} isRequest None st"

definition mockObj ::
  "Collaborators \<Rightarrow> nat \<Rightarrow> string \<Rightarrow> Schema \<Rightarrow> Val \<Rightarrow> Visited \<Rightarrow> bool \<Rightarrow> GeneratorState \<Rightarrow>
   Generated result" where
  "mockObj env fuel objName schema example visited isRequest st =
     bind (mockCachedObj env fuel objName schema example visited isRequest None st)
       (\<lambda>(cache, vis1, st1). returns (reBuildExample env cache isRequest schema, vis1, st1))"

text \<open>
  \<open>mockRequest(paramExample, paramSpec, rp)\<close>, one parameter at a time; \<open>version\<close> is
  \<open>this.spec.info.version\<close>. \<open>parameterName\<close> is the key that \<open>paramExample[paramEle.name]\<close> and
  \<open>paramEle.name in paramExample\<close> use: a parameter without a \<open>name\<close> is stored under the key
  \<open>undefined\<close>. The test \<open>"schema" in paramEle\<close> is on the key, whatever its value.
\<close>

definition parameterName :: "Schema \<Rightarrow> string" where
  "parameterName paramEle = (case s_name (attrs paramEle) of None \<Rightarrow> ''undefined'' | Some x \<Rightarrow> x)"

definition mockParameter ::
  "Collaborators \<Rightarrow> nat \<Rightarrow> Val \<Rightarrow> string \<Rightarrow> Schema \<Rightarrow> Val \<times> GeneratorState \<Rightarrow>
   (Val \<times> GeneratorState) result" where
  "mockParameter env fuel version rp element ps =
     (case ps of (paramExample, st) \<Rightarrow>
        bind (getDefSpec env element {}) (\<lambda>(paramEle, visited).
          if paramEle = Absent then throws TypeError
          else
            let pname = parameterName paramEle;
                allowed = (case onParameter env of None \<Rightarrow> True | Some validator \<Rightarrow> validator paramEle)
            in
            if s_name (attrs paramEle) = Some ''resourceGroupName'' then
              (case setProp paramExample ''resourceGroupName'' (VScalar (SStr (''rg'' @ rp))) of
                 Inl e \<Rightarrow> throws e | Inr p1 \<Rightarrow> returns (p1, st))
            else if s_name (attrs paramEle) = Some ''api-version'' then
              (case setProp paramExample ''api-version'' version of
                 Inl e \<Rightarrow> throws e | Inr p1 \<Rightarrow> returns (p1, st))
            else if \<not> isObj paramEle then throws TypeError
            else if parameterSchema paramEle \<noteq> None then
              (if allowed then
                 (case getProp paramExample pname of
                    Inl e \<Rightarrow> throws e
                  | Inr seed \<Rightarrow>
                      bind (mockObj env fuel pname
                              (case parameterSchema paramEle of None \<Rightarrow> Absent | Some s \<Rightarrow> s)
                              (if truthy seed then seed else VObj []) visited True st)
                        (\<lambda>(v, vis1, st1).
                           case setProp paramExample pname v of
                             Inl e \<Rightarrow> throws e | Inr p1 \<Rightarrow> returns (p1, st1)))
               else returns (paramExample, st))
            else
              (case hasKey env paramExample pname of
                 Inl e \<Rightarrow> throws e
               | Inr present \<Rightarrow>
                   if present then returns (paramExample, st)
                   else if allowed then
                     (case getProp paramExample pname of
                        Inl e \<Rightarrow> throws e
                      | Inr seed \<Rightarrow>
                          bind (mockObj env fuel pname element seed {} True st)
                            (\<lambda>(v, vis1, st1).
                               case setProp paramExample pname v of
                                 Inl e \<Rightarrow> throws e | Inr p1 \<Rightarrow> returns (p1, st1)))
                   else returns (paramExample, st))))"

definition mockRequest ::
  "Collaborators \<Rightarrow> nat \<Rightarrow> Val \<Rightarrow> Val \<Rightarrow> (string \<times> Schema) list \<Rightarrow> string \<Rightarrow> GeneratorState \<Rightarrow>
   (Val \<times> GeneratorState) result" where
  "mockRequest env fuel version paramExample paramSpec rp st =
     foldM (mockParameter env fuel version rp) (map snd paramSpec) (paramExample, st)"

section \<open>swaggerMocker.ts: back-filling response slots in mockForExample\<close>

definition preHandledStatusCode :: "string list" where
  "preHandledStatusCode = [''200'', ''201'', ''202'', ''204'']"

text \<open>
  The first statement block of \<open>mockForExample\<close>: \<open>responses\<close> is \<open>example.responses\<close>
  (status code to response example), \<open>declared\<close> is
  \<open>Object.keys(specItem.content.responses)\<close>. The emptiness test is made once, before the
  loop. An assignment \<open>example.responses[statusCode] = {}\<close> replaces the entry of an existing
  key and adds a missing one.
\<close>

definition backfillResponses :: "(string \<times> Val) list \<Rightarrow> string list \<Rightarrow> (string \<times> Val) list" where
  "backfillResponses responses declared =
     (if length (map fst responses) = 0
      then fold (\<lambda>statusCode r.
                   if statusCode \<noteq> ''default'' then AList.update statusCode (VObj []) r else r)
                declared responses
      else fold (\<lambda>statusCode r.
                   if statusCode \<noteq> ''default'' \<and> statusCode \<notin> set preHandledStatusCode
                   then AList.update statusCode (VObj []) r else r)
                declared responses)"

section \<open>Notions used in the statements\<close>



definition stringSchema :: Schema where
  "stringSchema = objectOf (noAttrs\<lparr> s_type := Some ''string'' \<rparr>)"

definition initialState :: "DefinitionsObject \<Rightarrow> ResolverState" where
  "initialState defs = \<lparr> specInJson = defs, resolvedAllOfModels = [], trace = [] \<rparr>"



text \<open>
  A resolved document for the generator: a loader that resolves \<open>$ref\<close> through a table of
  definitions (and yields nothing for a reference the table does not have), the usual
  test for an object schema, a value synthesizer and a key source that number their
  results from the random source, no example rule, and the names of \<open>Object.prototype\<close>
  and, for an array, \<open>length\<close> and the names of \<open>Array.prototype\<close> as of ES2019.
\<close>

definition arrayPrototypeNames :: "string list" where
  "arrayPrototypeNames =
     [''concat'', ''copyWithin'', ''entries'', ''every'', ''fill'', ''filter'', ''find'',
      ''findIndex'', ''flat'', ''flatMap'', ''forEach'', ''includes'', ''indexOf'', ''join'',
      ''keys'', ''lastIndexOf'', ''map'', ''pop'', ''push'', ''reduce'', ''reduceRight'',
      ''reverse'', ''shift'', ''slice'', ''some'', ''sort'', ''splice'', ''unshift'', ''values'']"

definition objectPrototypeNames :: "string list" where
  "objectPrototypeNames =
     [''constructor'', ''hasOwnProperty'', ''isPrototypeOf'', ''propertyIsEnumerable'',
      ''toLocaleString'', ''toString'', ''valueOf'', ''__proto__'', ''__defineGetter__'',
      ''__defineSetter__'', ''__lookupGetter__'', ''__lookupSetter__'']"

definition tableLoader :: "(string \<times> Schema) list \<Rightarrow> Schema \<Rightarrow> Schema" where
  "tableLoader table schema =
     (case s_ref (attrs schema) of
        None \<Rightarrow> schema
      | Some r \<Rightarrow> (case map_of table r of None \<Rightarrow> Absent | Some d \<Rightarrow> d))"

definition collaboratorsFor :: "(string \<times> Schema) list \<Rightarrow> Collaborators" where
  "collaboratorsFor table =
     \<lparr> resolveRefObj = tableLoader table,
       isObject = (\<lambda>s. s_type (attrs s) = Some ''object'' \<or> properties s \<noteq> None),
       mock = (\<lambda>e spec nm arrItem.
                 (if s_type (attrs spec) = Some ''array'' then VArr [arrItem]
                  else VScalar (SStr (''value'' @ showIndex e)), Suc e)),
       randomKey = (\<lambda>e. (''key'' @ showIndex e, Suc e)),
       buildItemOption = (\<lambda>s. VObj []),
       reBuildExample = (\<lambda>c isRequest schema. c),
       onParameter = None,
       objectPrototype = objectPrototypeNames,
       arrayPrototype = ''length'' # arrayPrototypeNames @ objectPrototypeNames \<rparr>"

definition emptyCaches :: GeneratorState where
  "emptyCaches = \<lparr> exampleCache = [], mockCache = [], entropy = 0, logged = [] \<rparr>"

definition objectWith :: "SchemaAttrs \<Rightarrow> (string \<times> Schema) list \<Rightarrow> Schema" where
  "objectWith a props = SchemaObject a (Some props) None None Absent Absent None None"

text \<open>
  The cycle scenario of the specification, \<open>Node{properties:{next: ref Node}}\<close>, and a
  document with a polymorphic base: \<open>Animal\<close> with the discriminator \<open>kind\<close> and the
  subtype \<open>Cat\<close>, and \<open>Zoo\<close> with two properties of type \<open>Animal\<close>.
\<close>

definition nodeTable :: "(string \<times> Schema) list" where
  "nodeTable =
     [(''#/definitions/Node'', objectWith noAttrs [(''next'', refTo ''#/definitions/Node'')])]"

definition zooTable :: "(string \<times> Schema) list" where
  "zooTable =
     [(''#/definitions/Zoo'',
         objectWith noAttrs [(''first'', refTo ''#/definitions/Animal''),
                             (''second'', refTo ''#/definitions/Animal'')]),
      (''#/definitions/Animal'',
         SchemaObject (noAttrs\<lparr> s_discriminator := Some ''kind'' \<rparr>)
           (Some [(''kind'', stringSchema)]) None None Absent Absent
           (Some [(''Cat'', refTo ''#/definitions/Cat'')]) None),
      (''#/definitions/Cat'', objectWith noAttrs [(''kind'', stringSchema)])]"

text \<open>The cache item \<open>mockCachedObj\<close> builds for \<open>Cat\<close> when the discriminator value is pinned.\<close>

definition catItem :: Val where
  "catItem =
     VObj [(''child'',
              VObj [(''kind'', VObj [(''value'', VScalar (SStr ''Cat'')), (''options'', VObj []),
                                     (''isLeaf'', VScalar (SBool True))])]),
           (''options'', VObj []), (''isLeaf'', VScalar (SBool False)),
           (''isMocked'', VScalar (SBool True))]"

definition zooItem :: Val where
  "zooItem =
     VObj [(''child'', VObj [(''first'', catItem), (''second'', VUndefined)]),
           (''options'', VObj []), (''isLeaf'', VScalar (SBool False)),
           (''isMocked'', VScalar (SBool True))]"

text \<open>
  The discriminator value in the specification's words: "the first enumerated value on
  the discriminator property if an enum is declared there, else the first key of the
  discriminator map". An enum that is declared but empty has no first value.
\<close>

definition chosenDiscriminatorValue ::
  "(string \<times> Schema) list \<Rightarrow> string \<Rightarrow> string \<Rightarrow> string option" where
  "chosenDiscriminatorValue props discriminator firstKey =
     (case map_of props discriminator of
        None \<Rightarrow> Some firstKey
      | Some prop \<Rightarrow>
          (case s_enum (attrs prop) of
             None \<Rightarrow> Some firstKey
           | Some [] \<Rightarrow> None
           | Some (v # vs) \<Rightarrow> Some v))"

text \<open>
  The composition graph is acyclic when the definitions can be ranked so that every
  definition ranks below each definition its \<open>allOf\<close> items refer to.
\<close>

definition compositionRanked :: "(string \<Rightarrow> nat) \<Rightarrow> DefinitionsObject \<Rightarrow> bool" where
  "compositionRanked rank defs =
     (\<forall>(n, d) \<in> set defs.
        \<forall>item \<in> set (case allOf d of None \<Rightarrow> [] | Some xs \<Rightarrow> xs).
          \<forall>p. s_ref (attrs item) = Some (''#/definitions/'' @ p) \<longrightarrow> rank n < rank p)"

text \<open>
  The two passes of \<open>resolve\<close> that the claims on polymorphism are about, in its order:
  composition flattening, then polymorphism expansion.
\<close>

definition resolvePasses :: "nat \<Rightarrow> DefinitionsObject \<Rightarrow> (SubTreeMap \<times> ResolverState) result" where
  "resolvePasses fuel defs =
     bind (resolveAllOfInDefinitions fuel (initialState defs)) (resolveDiscriminator fuel)"

definition siteAfter :: "(SubTreeMap \<times> ResolverState) result \<Rightarrow> string list \<Rightarrow> Schema option" where
  "siteAfter r path =
     (case r of Some (Inr (m, st)) \<Rightarrow> Some (getObject (specInJson st) path) | _ \<Rightarrow> None)"

definition traceAfter :: "(SubTreeMap \<times> ResolverState) result \<Rightarrow> Event list option" where
  "traceAfter r = (case r of Some (Inr (m, st)) \<Rightarrow> Some (trace st) | _ \<Rightarrow> None)"

definition discriminated :: "string \<Rightarrow> (string \<times> Schema) list \<Rightarrow> Schema list option \<Rightarrow> Schema" where
  "discriminated discriminator props parents =
     SchemaObject (noAttrs\<lparr> s_discriminator := Some discriminator \<rparr>) (Some props) parents None
       Absent Absent None None"

definition composing :: "string list \<Rightarrow> (string \<times> Schema) list \<Rightarrow> Schema" where
  "composing parents props =
     SchemaObject noAttrs (Some props)
       (Some (map (\<lambda>p. refTo (''#/definitions/'' @ p)) parents)) None Absent Absent None None"

text \<open>
  Documents with the base \<open>Animal\<close> (discriminator \<open>kind\<close>, which lists the known kinds) and
  the subtype \<open>Cat\<close>: one with two definitions that hold a reference to \<open>Animal\<close>, and one in
  which \<open>Lion\<close> composes both \<open>Cat\<close> and \<open>Feline\<close>, which compose \<open>Animal\<close>.
\<close>

definition kindSchema :: Schema where
  "kindSchema = objectOf (noAttrs\<lparr> s_type := Some ''string'', s_enum := Some [''Cat'', ''Dog''] \<rparr>)"

definition zooDocument :: DefinitionsObject where
  "zooDocument =
     [(''Animal'', discriminated ''kind'' [(''kind'', kindSchema)] None),
      (''Cat'', composing [''Animal''] []),
      (''Zoo'', objectWith noAttrs [(''pet'', refTo ''#/definitions/Animal'')]),
      (''zoneOffsetInfo'', objectWith noAttrs [(''pet'', refTo ''#/definitions/Animal'')])]"

definition diamondDocument :: DefinitionsObject where
  "diamondDocument =
     [(''Animal'', discriminated ''kind'' [(''kind'', stringSchema)] None),
      (''Cat'', composing [''Animal''] []),
      (''Feline'', composing [''Animal''] []),
      (''Lion'', composing [''Cat'', ''Feline''] [])]"

text \<open>
  The enum of the discriminator property after polymorphism expansion, in words. The
  enum already declared for the property \<open>d\<close> is its own \<open>enum\<close>, or, when \<open>d\<close> has a \<open>$ref\<close>
  and no \<open>enum\<close>, the \<open>enum\<close> of the definition the \<open>$ref\<close> names. A definition that itself
  declares a discriminator keeps the declared values, with its wire name put in front
  unless it is among them; on every other definition the enum is the wire name alone.
\<close>

definition declaredEnum :: "DefinitionsObject \<Rightarrow> Schema \<Rightarrow> string list option" where
  "declaredEnum defs d =
     (if truthyStr (s_ref (attrs d)) \<and> s_enum (attrs d) = None
      then (case map_of defs (afterLastSlash (case s_ref (attrs d) of Some r \<Rightarrow> r | None \<Rightarrow> [])) of
              None \<Rightarrow> None
            | Some refDefinition \<Rightarrow>
                if truthySchema refDefinition then s_enum (attrs refDefinition) else None)
      else s_enum (attrs d))"

definition pinnedEnum :: "DefinitionsObject \<Rightarrow> string \<Rightarrow> Schema \<Rightarrow> Schema \<Rightarrow> string list" where
  "pinnedEnum defs nm defn d =
     (case declaredEnum defs d of
        None \<Rightarrow> [discriminatorValueOf nm defn]
      | Some declared \<Rightarrow>
          if truthyStr (s_discriminator (attrs defn))
          then (if discriminatorValueOf nm defn \<in> set declared then declared
                else discriminatorValueOf nm defn # declared)
          else [discriminatorValueOf nm defn])"

fun treeNames :: "PolymorphicTree \<Rightarrow> string set" where
  "treeNames (PolymorphicTree nm chn) = insert nm (\<Union>kc \<in> set chn. treeNames (snd kc))"

text \<open>
  What the tree builder reads of a definition besides its properties, and never changes.
\<close>

definition factsView ::
  "DefinitionsObject \<Rightarrow>
   (string \<times> Schema list option \<times> string list option \<times> string option \<times> string option \<times> bool) list" where
  "factsView defs =
     map (\<lambda>(k, d). (k, allOf d, s_enum (attrs d), s_discriminator (attrs d),
                     s_x_ms_discriminator_value (attrs d), truthySchema d)) defs"

text \<open>
  The discriminator property of the definition \<open>k\<close>, and what it means that it has been
  pinned: where the document \<open>defs0\<close> declared it as an object, it is now an object with no
  \<open>$ref\<close> whose enum is the one described above.
\<close>

definition discriminatorProperty :: "string \<Rightarrow> DefinitionsObject \<Rightarrow> string \<Rightarrow> Schema option" where
  "discriminatorProperty discriminator defs k =
     (case map_of defs k of
        None \<Rightarrow> None
      | Some defn \<Rightarrow>
          (case properties defn of None \<Rightarrow> None | Some props \<Rightarrow> map_of props discriminator))"

definition pinned :: "string \<Rightarrow> DefinitionsObject \<Rightarrow> DefinitionsObject \<Rightarrow> string \<Rightarrow> bool" where
  "pinned discriminator defs0 defs k =
     (\<forall>defn d. map_of defs0 k = Some defn \<and>
              discriminatorProperty discriminator defs0 k = Some d \<and> isObj d \<longrightarrow>
        (\<exists>d'. discriminatorProperty discriminator defs k = Some d' \<and> isObj d' \<and>
              \<not> truthyStr (s_ref (attrs d')) \<and>
              s_enum (attrs d') = Some (pinnedEnum defs0 k defn d)))"

definition animalsDocument :: DefinitionsObject where
  "animalsDocument =
     [(''Animal'', discriminated ''kind'' [(''kind'', kindSchema)] None),
      (''Cat'', composing [''Animal''] [(''kind'', kindSchema)])]"

text \<open>
  The state of the document while a tree is built from \<open>defs0\<close>: a definition is either as
  it was or pinned.
\<close>

definition pinning :: "string \<Rightarrow> DefinitionsObject \<Rightarrow> DefinitionsObject \<Rightarrow> bool" where
  "pinning discriminator defs0 defs =
     (factsView defs = factsView defs0 \<and>
      (\<forall>k. map_of defs k = map_of defs0 k \<or> pinned discriminator defs0 defs k))"







section \<open>Results and loops\<close>

lemma bind_returns [simp]: "bind (returns x) f = f x"
  by (simp add: returns_def)

lemma bind_throws [simp]: "bind (throws e) f = throws e"
  by (simp add: throws_def)

lemma result_cases:
  obtains "r = None" | e where "r = throws e" | x where "r = returns x"
  by (cases r) (auto simp: throws_def returns_def elim: sumE)

lemma returns_inject [simp]: "returns x = returns y \<longleftrightarrow> x = y"
  and throws_neq_returns [simp]: "throws e \<noteq> returns x" "returns x \<noteq> throws e"
  and None_neq_returns [simp]: "None \<noteq> returns x" "returns x \<noteq> None"
  by (simp_all add: returns_def throws_def)

lemma bind_eq_returns:
  "bind r f = returns y \<longleftrightarrow> (\<exists>x. r = returns x \<and> f x = returns y)"
  by (cases r rule: result_cases) auto

lemma sum_case_eq_returns:
  "(case r of Inl e \<Rightarrow> throws e | Inr x \<Rightarrow> f x) = returns y \<longleftrightarrow>
     (\<exists>x. r = Inr x \<and> f x = returns y)"
  by (cases r) auto

lemma foldM_invariant:
  assumes "foldM f xs s = returns s'" and "I s"
    and "\<And>x a b. x \<in> set xs \<Longrightarrow> I a \<Longrightarrow> f x a = returns b \<Longrightarrow> I b"
  shows "I s'"
  using assms
proof (induction xs arbitrary: s)
  case Nil
  then show ?case by simp
next
  case (Cons x xs)
  from Cons.prems(1) obtain s1 where s1: "f x s = returns s1" and rest: "foldM f xs s1 = returns s'"
    by (auto simp: bind_eq_returns)
  have "I s1" using Cons.prems(2,3) s1 by auto
  then show ?case using Cons.IH [OF rest] Cons.prems(3) by auto
qed

lemma update_fresh: "k \<notin> fst ` set al \<Longrightarrow> AList.update k v al = al @ [(k, v)]"
  by (induction al) auto

lemma spread_distinct:
  "distinct (map fst b) \<Longrightarrow> fst ` set a \<inter> fst ` set b = {} \<Longrightarrow> spread a b = a @ b"
proof -
  have "distinct (map fst b) \<Longrightarrow> fst ` set a \<inter> fst ` set b = {} \<Longrightarrow>
        fold (\<lambda>(k, v) acc. AList.update k v acc) b a = a @ b"
  proof (induction b arbitrary: a)
    case Nil
    then show ?case by simp
  next
    case (Cons kv b)
    obtain k v where kv: "kv = (k, v)" by (cases kv)
    have fresh: "k \<notin> fst ` set a" using Cons.prems(2) by (auto simp: kv)
    have "fold (\<lambda>(k, v) acc. AList.update k v acc) b (a @ [(k, v)]) = (a @ [(k, v)]) @ b"
      using Cons.prems by (intro Cons.IH) (auto simp: kv)
    then show ?case by (simp add: kv update_fresh [OF fresh])
  qed
  then show "distinct (map fst b) \<Longrightarrow> fst ` set a \<inter> fst ` set b = {} \<Longrightarrow> spread a b = a @ b"
    by (simp add: spread_def)
qed

section \<open>Composition flattening\<close>


lemma set_new_Set: "set (new_Set xs) = set xs"
proof -
  have "set (fold (\<lambda>x acc. if x \<in> set acc then acc else acc @ [x]) xs acc) = set acc \<union> set xs" for acc
    by (induction xs arbitrary: acc) auto
  then show ?thesis by (simp add: new_Set_def)
qed





section \<open>What building a polymorphic tree leaves alone\<close>

lemma foldM_total:
  assumes "I s"
    and "\<And>x a. x \<in> set xs \<Longrightarrow> I a \<Longrightarrow> \<exists>r. f x a = Some r \<and> (\<forall>b. r = Inr b \<longrightarrow> I b)"
  shows "\<exists>r. foldM f xs s = Some r \<and> (\<forall>b. r = Inr b \<longrightarrow> I b)"
  using assms
proof (induction xs arbitrary: s)
  case Nil
  then show ?case by (simp add: returns_def)
next
  case (Cons x xs)
  from Cons.prems obtain r where r: "f x s = Some r" "\<forall>b. r = Inr b \<longrightarrow> I b"
    by (meson list.set_intros(1))
  show ?case
  proof (cases r)
    case (Inl e)
    then show ?thesis using r by simp
  next
    case (Inr b)
    then have "I b" using r by simp
    from Cons.IH [OF this] Cons.prems(2) obtain r' where
      "foldM f xs b = Some r'" "\<forall>c. r' = Inr c \<longrightarrow> I c"
      by (meson list.set_intros(2))
    then show ?thesis using r Inr by simp
  qed
qed

lemma update_present_map:
  "map_of al k = Some v \<Longrightarrow> g v' = g v \<Longrightarrow>
   map (\<lambda>(k, d). (k, g d)) (AList.update k v' al) = map (\<lambda>(k, d). (k, g d)) al"
  by (induction al) (auto split: if_splits)

lemma allOf_map_attrs [simp]: "allOf (map_attrs f s) = allOf s"
  and allOf_set_properties [simp]: "allOf (set_properties p s) = allOf s"
  and truthy_map_attrs [simp]: "truthySchema (map_attrs f s) = truthySchema s"
  and truthy_set_properties [simp]: "truthySchema (set_properties p s) = truthySchema s"
  and isObj_map_attrs [simp]: "isObj (map_attrs f s) = isObj s"
  and isObj_set_properties [simp]: "isObj (set_properties p s) = isObj s"
  and attrs_set_properties [simp]: "attrs (set_properties p s) = attrs s"
  and properties_map_attrs [simp]: "properties (map_attrs f s) = properties s"
  by (cases s; simp)+

lemma attrs_map_attrs: "isObj s \<Longrightarrow> attrs (map_attrs f s) = f (attrs s)"
  by (cases s) auto

lemma properties_set_properties: "isObj s \<Longrightarrow> properties (set_properties p s) = p"
  by (cases s) auto

lemma properties_isObj: "properties s = Some ps \<Longrightarrow> isObj s"
  by (cases s) auto

text \<open>What \<open>constrainDiscriminator\<close> does to the document, whatever the branch.\<close>

lemma constrainDiscriminator_shape:
  assumes "constrainDiscriminator nm discriminator defs = Inr defs'"
  shows "defs' = defs \<or>
         (\<exists>defn f p. map_of defs nm = Some defn \<and> isObj defn \<and>
            defs' = AList.update nm (set_properties p (map_attrs f defn)) defs \<and>
            (\<forall>a. s_enum (f a) = s_enum a \<and> s_discriminator (f a) = s_discriminator a \<and>
                 s_x_ms_discriminator_value (f a) = s_x_ms_discriminator_value a))"
proof (cases "map_of defs nm")
  case None
  then show ?thesis using assms by (simp add: constrainDiscriminator_def)
next
  case (Some defn)
  note defn = this
  show ?thesis
  proof (cases "properties defn")
    case None
    then show ?thesis using assms defn by (simp add: constrainDiscriminator_def)
  next
    case (Some props)
    note props = this
    have obj: "isObj defn" using props by (rule properties_isObj)
    have typed: ?thesis
      if "defs' = AList.update nm (map_attrs (\<lambda>a. a\<lparr> s_type := Some ''object'' \<rparr>) defn) defs"
    proof -
      have "defs' = AList.update nm (set_properties (properties defn)
               (map_attrs (\<lambda>a. a\<lparr> s_type := Some ''object'' \<rparr>) defn)) defs"
        using that props by (cases defn) auto
      then show ?thesis using defn obj by (intro disjI2 exI conjI) (assumption | simp)+
    qed
    have pinned: ?thesis
      if "defs' = AList.update nm
               (set_properties (Some ps)
                  (map_attrs (requireDiscriminator discriminator)
                     (map_attrs (\<lambda>a. a\<lparr> s_type := Some ''object'' \<rparr>) defn))) defs" for ps
    proof -
      have "defs' = AList.update nm
               (set_properties (Some ps)
                  (map_attrs (\<lambda>a. requireDiscriminator discriminator (a\<lparr> s_type := Some ''object'' \<rparr>))
                     defn)) defs"
        using that by (cases defn) auto
      then show ?thesis using defn obj
        by (intro disjI2 exI conjI) (assumption | simp add: requireDiscriminator_def)+
    qed
    show ?thesis
    proof (cases "map_of props discriminator")
      case None
      then show ?thesis using assms defn props
        by (intro typed) (simp add: constrainDiscriminator_def)
    next
      case (Some d)
      note d = this
      show ?thesis
      proof (cases "truthySchema d")
        case False
        then show ?thesis using assms defn props d
          by (intro typed) (simp add: constrainDiscriminator_def)
      next
        case True
        then have "isObj d" using assms defn props d
          by (simp add: constrainDiscriminator_def split: if_splits)
        with True have "defs' = AList.update nm
               (set_properties
                  (Some (AList.update discriminator
                           (constrainProperty (discriminatorValueOf nm defn) defn defs d) props))
                  (map_attrs (requireDiscriminator discriminator)
                     (map_attrs (\<lambda>a. a\<lparr> s_type := Some ''object'' \<rparr>) defn))) defs"
          using assms defn props d by (simp add: constrainDiscriminator_def)
        then show ?thesis by (rule pinned)
      qed
    qed
  qed
qed

lemma constrainDiscriminator_factsView:
  assumes "constrainDiscriminator nm discriminator defs = Inr defs'"
  shows "factsView defs' = factsView defs"
  using constrainDiscriminator_shape [OF assms]
  unfolding factsView_def
  by (auto intro!: update_present_map simp: attrs_map_attrs)

lemma constrainDiscriminator_other:
  assumes "constrainDiscriminator nm discriminator defs = Inr defs'" and "k \<noteq> nm"
  shows "map_of defs' k = map_of defs k"
  using constrainDiscriminator_shape [OF assms(1)] assms(2)
  by (auto simp: update_conv')

lemma factsView_lookup:
  assumes "factsView defs' = factsView defs"
  shows "map_option (\<lambda>d. (allOf d, s_enum (attrs d), s_discriminator (attrs d),
                        s_x_ms_discriminator_value (attrs d), truthySchema d)) (map_of defs' k)
       = map_option (\<lambda>d. (allOf d, s_enum (attrs d), s_discriminator (attrs d),
                        s_x_ms_discriminator_value (attrs d), truthySchema d)) (map_of defs k)"
proof -
  have "map_of (factsView ds) k = map_option (\<lambda>d. (allOf d, s_enum (attrs d), s_discriminator (attrs d),
                        s_x_ms_discriminator_value (attrs d), truthySchema d)) (map_of ds k)" for ds
    unfolding factsView_def by (induction ds) auto
  then show ?thesis using assms by metis
qed

lemma findChildren_factsView:
  assumes "factsView defs' = factsView defs"
  shows "findChildren nm defs' = findChildren nm defs"
proof -
  define V where "V ds = map (\<lambda>(k, d). (k, allOf d)) ds" for ds :: DefinitionsObject
  have V: "V defs' = V defs"
  proof -
    have "V ds = map (\<lambda>(k, a, r). (k, a)) (factsView ds)" for ds
      by (simp add: V_def factsView_def case_prod_unfold)
    then show ?thesis using assms by simp
  qed
  have 1: "findChildren nm ds =
     (let reference = ''#/definitions/'' @ nm;
          withAllOf = filter (\<lambda>(n, a). a \<noteq> None) (V ds)
      in if blank nm
         then Inl (Error ''name is a required property of type string and it cannot be an empty string.'')
         else if \<exists>(n, a) \<in> set withAllOf. Absent \<in> set (case a of None \<Rightarrow> [] | Some xs \<Rightarrow> xs)
         then Inl TypeError
         else Inr (new_Set (map fst
                (filter (\<lambda>(n, a). \<exists>item \<in> set (case a of None \<Rightarrow> [] | Some xs \<Rightarrow> xs).
                             s_ref (attrs item) = Some reference)
                        withAllOf))))" for ds
    unfolding findChildren_def V_def Let_def
    by (cases "blank nm") (simp_all add: filter_map comp_def case_prod_unfold)
  show ?thesis unfolding 1 V ..
qed


lemma compositionRanked_factsView:
  assumes "factsView defs' = factsView defs"
  shows "compositionRanked rank defs' = compositionRanked rank defs"
proof -
  have "compositionRanked rank ds =
        (\<forall>(n, a, r) \<in> set (factsView ds).
           \<forall>item \<in> set (case a of None \<Rightarrow> [] | Some xs \<Rightarrow> xs).
             \<forall>p. s_ref (attrs item) = Some (''#/definitions/'' @ p) \<longrightarrow> rank n < rank p)" for ds
    unfolding compositionRanked_def factsView_def by (auto simp: case_prod_unfold)
  then show ?thesis using assms by simp
qed

lemma findChildren_ranked:
  assumes "compositionRanked rank defs" and "findChildren nm defs = Inr childNames"
    and "c \<in> set childNames"
  shows "rank c < rank nm"
proof -
  from assms(2,3) obtain d item where "(c, d) \<in> set defs"
    "item \<in> set (case allOf d of None \<Rightarrow> [] | Some xs \<Rightarrow> xs)"
    "s_ref (attrs item) = Some (''#/definitions/'' @ nm)"
    by (auto simp: findChildren_def Let_def set_new_Set split: if_splits)
  then show ?thesis using assms(1) unfolding compositionRanked_def by blast
qed

lemma createPolymorphicTree_total:
  assumes "compositionRanked rank (specInJson st)" and "rank nm < n"
  shows "\<exists>r. createPolymorphicTree n nm discriminator m st = Some r \<and>
             (\<forall>t m' st'. r = Inr (t, m', st') \<longrightarrow>
                factsView (specInJson st') = factsView (specInJson st))"
  using assms
proof (induction n arbitrary: nm m st)
  case 0
  then show ?case by simp
next
  case (Suc n)
  show ?case
  proof (cases "blank nm \<or> blank discriminator")
    case True
    then show ?thesis by (auto simp: throws_def)
  next
    case False
    note nb = this
    show ?thesis
    proof (cases "constrainDiscriminator nm discriminator (specInJson st)")
      case (Inl e)
      then show ?thesis using nb by (simp add: throws_def)
    next
      case (Inr defs1)
      note c = this
      have fv: "factsView defs1 = factsView (specInJson st)"
        using c by (rule constrainDiscriminator_factsView)
      have rk: "compositionRanked rank defs1"
        using Suc.prems(1) compositionRanked_factsView [OF fv] by simp
      show ?thesis
      proof (cases "findChildren nm defs1")
        case (Inl e)
        then show ?thesis using nb c by (simp add: throws_def)
      next
        case (Inr childNames)
        note ch = this
        define step where "step = (\<lambda>childName (rootNode, m, s).
                                 bind (createPolymorphicTree n childName discriminator m s)
                                   (\<lambda>(childObj, m1, s1).
                                      returns (addChildByObject childObj rootNode, m1, s1)))"
        define I where "I = (\<lambda>(rootNode :: PolymorphicTree, m :: SubTreeMap, s :: ResolverState).
                               factsView (specInJson s) = factsView defs1)"
        define start where "start = (PolymorphicTree nm [], m,
                               st\<lparr> trace := trace st @ [New nm], specInJson := defs1 \<rparr>)"
        have "\<exists>r. step x a = Some r \<and> (\<forall>b. r = Inr b \<longrightarrow> I b)" if "x \<in> set childNames" "I a" for x a
        proof -
          obtain rootNode m0 s where a: "a = (rootNode, m0, s)" by (cases a)
          have fs: "factsView (specInJson s) = factsView defs1" using that(2) by (simp add: I_def a)
          have "compositionRanked rank (specInJson s)"
            using rk compositionRanked_factsView [OF fs] by simp
          moreover have "rank x < n"
            using findChildren_ranked [OF rk ch that(1)] Suc.prems(2) by simp
          ultimately obtain r where r: "createPolymorphicTree n x discriminator m0 s = Some r"
            "\<forall>t m' st'. r = Inr (t, m', st') \<longrightarrow> factsView (specInJson st') = factsView (specInJson s)"
            using Suc.IH by blast
          show ?thesis
          proof (cases r)
            case (Inl e)
            then show ?thesis using r by (simp add: step_def a)
          next
            case (Inr b)
            obtain t m' st' where b: "b = (t, m', st')" by (cases b)
            then show ?thesis using r Inr fs by (simp add: step_def a returns_def I_def)
          qed
        qed
        moreover have "I start" by (simp add: I_def start_def)
        ultimately obtain r where r: "foldM step childNames start = Some r" "\<forall>b. r = Inr b \<longrightarrow> I b"
          using foldM_total [of I start childNames step] by blast
        have eq: "createPolymorphicTree (Suc n) nm discriminator m st =
                  bind (foldM step childNames start)
                    (\<lambda>(rootNode, m, s).
                       returns (rootNode, AList.update nm rootNode m,
                                s\<lparr> trace := trace s @ [MemoSet nm] \<rparr>))"
          using nb c ch by (simp add: step_def start_def Let_def)
        show ?thesis
        proof (cases r)
          case (Inl e)
          then show ?thesis unfolding eq using r by simp
        next
          case (Inr b)
          obtain t m' st' where b: "b = (t, m', st')" by (cases b)
          have "I b" using r Inr by simp
          then show ?thesis unfolding eq using r Inr b fv by (simp add: returns_def I_def)
        qed
      qed
    qed
  qed
qed

text \<open>The events of building a tree.\<close>

lemma createPolymorphicTree_trace:
  assumes "createPolymorphicTree n nm discriminator m st = returns (t, m', st')"
  shows "node_name t = nm \<and> map_of m' nm = Some t \<and>
         (\<exists>evs. trace st' = trace st @ New nm # evs @ [MemoSet nm])"
proof (cases n)
  case 0
  then show ?thesis using assms by simp
next
  case (Suc k)
  have ext: "\<exists>evs. trace st' = trace st @ evs"
    if "createPolymorphicTree n nm discriminator m st = returns (t, m', st')"
    for n nm m st t m' st'
    using that
  proof (induction n arbitrary: nm m st t m' st')
    case 0
    then show ?case by simp
  next
    case (Suc n)
    from Suc.prems obtain defs1 childNames rootNode m1 s where
      fold: "foldM (\<lambda>childName (rootNode, m, s).
                                 bind (createPolymorphicTree n childName discriminator m s)
                                   (\<lambda>(childObj, m1, s1).
                                      returns (addChildByObject childObj rootNode, m1, s1)))
               childNames
               (PolymorphicTree nm [], m, st\<lparr> trace := trace st @ [New nm], specInJson := defs1 \<rparr>)
             = returns (rootNode, m1, s)"
      and st': "st' = s\<lparr> trace := trace s @ [MemoSet nm] \<rparr>"
      by (auto simp: Let_def bind_eq_returns sum_case_eq_returns split: if_splits)
    have "case (rootNode, m1, s) of (rootNode, m1, s) \<Rightarrow> \<exists>evs. trace s = (trace st @ [New nm]) @ evs"
      by (rule foldM_invariant [OF fold])
         (use Suc.IH in \<open>fastforce simp: bind_eq_returns\<close>)+
    then show ?case by (auto simp: st')
  qed
  from assms Suc obtain defs1 childNames rootNode m1 s where
      fold: "foldM (\<lambda>childName (rootNode, m, s).
                                 bind (createPolymorphicTree k childName discriminator m s)
                                   (\<lambda>(childObj, m1, s1).
                                      returns (addChildByObject childObj rootNode, m1, s1)))
               childNames
               (PolymorphicTree nm [], m, st\<lparr> trace := trace st @ [New nm], specInJson := defs1 \<rparr>)
             = returns (rootNode, m1, s)"
      and res: "t = rootNode" "m' = AList.update nm rootNode m1"
               "st' = s\<lparr> trace := trace s @ [MemoSet nm] \<rparr>"
    by (auto simp: Let_def bind_eq_returns sum_case_eq_returns split: if_splits)
  have "case (rootNode, m1, s) of (rootNode, m1, s) \<Rightarrow>
          node_name rootNode = nm \<and> (\<exists>evs. trace s = (trace st @ [New nm]) @ evs)"
    by (rule foldM_invariant [OF fold])
       (use ext in \<open>fastforce simp: bind_eq_returns addChildByObject_def\<close>)+
  then show ?thesis by (auto simp: res update_conv')
qed


lemma resolveDiscriminatorEntry_reuses:
  assumes "map_of m modelName = Some rootNode"
    and "resolveDiscriminatorEntry fuel references modelName (m, st) = returns (m', st')"
  shows "m' = m \<and> trace st' = trace st"
  using assms
  by (auto simp: resolveDiscriminatorEntry_def updateReferencesWithOneOf_def bind_eq_returns
        split: option.splits if_splits)


text \<open>The enum that \<open>constrainProperty\<close> leaves.\<close>

lemma declaredEnum_factsView:
  assumes "factsView defs' = factsView defs"
  shows "declaredEnum defs' d = declaredEnum defs d"
proof -
  have "case_option None (\<lambda>rd. if truthySchema rd then s_enum (attrs rd) else None) (map_of defs' k)
      = case_option None (\<lambda>rd. if truthySchema rd then s_enum (attrs rd) else None) (map_of defs k)" for k
    using factsView_lookup [OF assms, of k] by (auto split: option.splits)
  then show ?thesis by (simp add: declaredEnum_def)
qed

lemma constrainProperty_enum:
  assumes "isObj d"
  shows "isObj (constrainProperty (discriminatorValueOf nm defn) defn defs d) \<and>
         \<not> truthyStr (s_ref (attrs (constrainProperty (discriminatorValueOf nm defn) defn defs d))) \<and>
         s_enum (attrs (constrainProperty (discriminatorValueOf nm defn) defn defs d))
           = Some (pinnedEnum defs nm defn d)"
proof -
  define d1 where "d1 = (if truthyStr (s_ref (attrs d))
                then map_attrs (\<lambda>a. a\<lparr> s_ref := None \<rparr>)
                       (if s_enum (attrs d) = None
                        then (case map_of defs (afterLastSlash
                                      (case s_ref (attrs d) of Some r \<Rightarrow> r | None \<Rightarrow> [])) of
                                None \<Rightarrow> d
                              | Some refDefinition \<Rightarrow>
                                  if truthySchema refDefinition
                                  then map_attrs (\<lambda>a. a\<lparr> s_enum := s_enum (attrs refDefinition) \<rparr>) d
                                  else d)
                        else d)
                else d)"
  have d1: "isObj d1" "\<not> truthyStr (s_ref (attrs d1))" "s_enum (attrs d1) = declaredEnum defs d"
    using assms
    by (auto simp: d1_def declaredEnum_def attrs_map_attrs split: option.splits)
  define d3 where "d3 = (let d2 = map_attrs (\<lambda>a. a\<lparr> s_x_ms_enum :=
                              (case s_x_ms_enum a of None \<Rightarrow> None | Some m \<Rightarrow> Some (Some False)) \<rparr>) d1
                         in if \<not> truthyStr (s_type (attrs d2))
                            then map_attrs (\<lambda>a. a\<lparr> s_type := Some ''string'' \<rparr>) d2 else d2)"
  have d3: "isObj d3" "\<not> truthyStr (s_ref (attrs d3))" "s_enum (attrs d3) = declaredEnum defs d"
    using d1 by (auto simp: d3_def Let_def attrs_map_attrs)
  have "constrainProperty (discriminatorValueOf nm defn) defn defs d =
        (case s_enum (attrs d3) of
           Some baseClassDiscriminatorValue \<Rightarrow>
             if truthyStr (s_discriminator (attrs defn))
             then (if discriminatorValueOf nm defn \<notin> set baseClassDiscriminatorValue
                   then map_attrs (\<lambda>a. a\<lparr> s_enum := Some (discriminatorValueOf nm defn # baseClassDiscriminatorValue) \<rparr>) d3
                   else d3)
             else map_attrs (\<lambda>a. a\<lparr> s_enum := Some [discriminatorValueOf nm defn] \<rparr>) d3
         | None \<Rightarrow> map_attrs (\<lambda>a. a\<lparr> s_enum := Some [discriminatorValueOf nm defn] \<rparr>) d3)"
    by (simp only: constrainProperty_def d3_def d1_def Let_def)
  then show ?thesis using d3
    by (auto simp: pinnedEnum_def attrs_map_attrs split: option.splits)
qed


lemma isObj_truthy: "isObj d \<Longrightarrow> truthySchema d"
  by (cases d) auto

lemma constrainDiscriminator_property:
  assumes "map_of defs nm = Some defn"
    and "discriminatorProperty discriminator defs nm = Some d" and "isObj d"
  shows "\<exists>defs'. constrainDiscriminator nm discriminator defs = Inr defs' \<and>
           discriminatorProperty discriminator defs' nm
             = Some (constrainProperty (discriminatorValueOf nm defn) defn defs d)"
proof -
  from assms(1,2) obtain props where props: "properties defn = Some props"
    "map_of props discriminator = Some d"
    by (auto simp: discriminatorProperty_def split: option.splits)
  have obj: "isObj defn" using props(1) by (rule properties_isObj)
  show ?thesis
    using assms(1,3) props obj isObj_truthy [OF assms(3)]
    by (simp add: constrainDiscriminator_def discriminatorProperty_def update_conv'
          properties_set_properties)
qed

lemma pinnedEnum_again:
  assumes "\<not> truthyStr (s_ref (attrs dc))"
    and "s_enum (attrs dc) = Some (pinnedEnum defs0 nm defn d)"
    and "s_discriminator (attrs defnc) = s_discriminator (attrs defn)"
    and "discriminatorValueOf nm defnc = discriminatorValueOf nm defn"
  shows "pinnedEnum defs nm defnc dc = pinnedEnum defs0 nm defn d"
  using assms by (auto simp: pinnedEnum_def declaredEnum_def split: option.splits)

lemma pinned_other:
  "map_of defs' k = map_of defs k \<Longrightarrow>
   pinned discriminator defs0 defs' k = pinned discriminator defs0 defs k"
  by (simp add: pinned_def discriminatorProperty_def)

lemma constrainDiscriminator_pins:
  assumes inv: "pinning discriminator defs0 defs"
    and c: "constrainDiscriminator nm discriminator defs = Inr defs'"
  shows "pinned discriminator defs0 defs' nm"
  unfolding pinned_def
proof (intro allI impI, elim conjE)
  fix defn d
  assume orig: "map_of defs0 nm = Some defn"
    "discriminatorProperty discriminator defs0 nm = Some d" "isObj d"
  have fv: "factsView defs = factsView defs0" using inv by (simp add: pinning_def)
  from inv consider "map_of defs nm = map_of defs0 nm" | "pinned discriminator defs0 defs nm"
    unfolding pinning_def by blast
  then obtain defnc dc where cur: "map_of defs nm = Some defnc"
      "discriminatorProperty discriminator defs nm = Some dc" "isObj dc"
    and en: "pinnedEnum defs nm defnc dc = pinnedEnum defs0 nm defn d"
  proof cases
    case 1
    have "discriminatorProperty discriminator defs nm = Some d"
      using 1 orig by (simp add: discriminatorProperty_def)
    moreover have "pinnedEnum defs nm defn d = pinnedEnum defs0 nm defn d"
      by (simp add: pinnedEnum_def declaredEnum_factsView [OF fv])
    ultimately show ?thesis using that [of defn d] 1 orig by simp
  next
    case 2
    then obtain dc where dc: "discriminatorProperty discriminator defs nm = Some dc" "isObj dc"
      "\<not> truthyStr (s_ref (attrs dc))" "s_enum (attrs dc) = Some (pinnedEnum defs0 nm defn d)"
      using orig unfolding pinned_def by blast
    then obtain defnc where defnc: "map_of defs nm = Some defnc"
      by (auto simp: discriminatorProperty_def split: option.splits)
    have same: "s_discriminator (attrs defnc) = s_discriminator (attrs defn)"
      "s_x_ms_discriminator_value (attrs defnc) = s_x_ms_discriminator_value (attrs defn)"
      using factsView_lookup [OF fv, of nm] defnc orig(1) by simp_all
    have "pinnedEnum defs nm defnc dc = pinnedEnum defs0 nm defn d"
      using dc(3,4) same by (intro pinnedEnum_again) (simp_all add: discriminatorValueOf_def)
    then show ?thesis using that [of defnc dc] defnc dc(1,2) by simp
  qed
  from constrainDiscriminator_property [OF cur] c
  have "discriminatorProperty discriminator defs' nm
             = Some (constrainProperty (discriminatorValueOf nm defnc) defnc defs dc)"
    by auto
  moreover note constrainProperty_enum [OF cur(3), of nm defnc defs]
  ultimately show "\<exists>d'. discriminatorProperty discriminator defs' nm = Some d' \<and> isObj d' \<and>
              \<not> truthyStr (s_ref (attrs d')) \<and>
              s_enum (attrs d') = Some (pinnedEnum defs0 nm defn d)"
    using en by simp
qed

lemma constrainDiscriminator_pinning:
  assumes inv: "pinning discriminator defs0 defs"
    and c: "constrainDiscriminator nm discriminator defs = Inr defs'"
  shows "pinning discriminator defs0 defs' \<and>
         (\<forall>k. pinned discriminator defs0 defs k \<longrightarrow> pinned discriminator defs0 defs' k)"
proof -
  have nm: "pinned discriminator defs0 defs' nm"
    using inv c by (rule constrainDiscriminator_pins)
  have fv: "factsView defs' = factsView defs0"
    using constrainDiscriminator_factsView [OF c] inv by (simp add: pinning_def)
  have old: "map_of defs k = map_of defs0 k \<or> pinned discriminator defs0 defs k" for k
    using inv by (simp add: pinning_def)
  have new: "map_of defs' k = map_of defs0 k \<or> pinned discriminator defs0 defs' k" for k
  proof (cases "k = nm")
    case True
    then show ?thesis using nm by simp
  next
    case False
    have "map_of defs' k = map_of defs k" using c False by (rule constrainDiscriminator_other)
    then show ?thesis using old [of k] pinned_other [of defs' k defs discriminator defs0] by simp
  qed
  have keep: "pinned discriminator defs0 defs' k" if "pinned discriminator defs0 defs k" for k
  proof (cases "k = nm")
    case True
    then show ?thesis using nm by simp
  next
    case False
    have "map_of defs' k = map_of defs k" using c False by (rule constrainDiscriminator_other)
    then show ?thesis using that pinned_other [of defs' k defs discriminator defs0] by simp
  qed
  show ?thesis unfolding pinning_def
    by (intro conjI allI impI) (rule fv new keep | assumption)+
qed

lemma treeNames_addChildByObject:
  "treeNames (addChildByObject childObj rootNode) \<subseteq> treeNames rootNode \<union> treeNames childObj"
  by (cases rootNode) (auto simp: addChildByObject_def)

lemma createPolymorphicTree_pins:
  assumes "createPolymorphicTree n nm discriminator m st = returns (t, m', st')"
    and "pinning discriminator defs0 (specInJson st)"
  shows "pinning discriminator defs0 (specInJson st') \<and>
         (\<forall>k. pinned discriminator defs0 (specInJson st) k \<longrightarrow>
               pinned discriminator defs0 (specInJson st') k) \<and>
         (\<forall>k \<in> treeNames t. pinned discriminator defs0 (specInJson st') k)"
  using assms
proof (induction n arbitrary: nm m st t m' st')
  case 0
  then show ?case by simp
next
  case (Suc n)
  from Suc.prems(1) obtain defs1 childNames rootNode m1 s where
    c: "constrainDiscriminator nm discriminator (specInJson st) = Inr defs1"
    and fold: "foldM (\<lambda>childName (rootNode, m, s).
                                 bind (createPolymorphicTree n childName discriminator m s)
                                   (\<lambda>(childObj, m1, s1).
                                      returns (addChildByObject childObj rootNode, m1, s1)))
               childNames
               (PolymorphicTree nm [], m, st\<lparr> trace := trace st @ [New nm], specInJson := defs1 \<rparr>)
             = returns (rootNode, m1, s)"
    and res: "t = rootNode" "st' = s\<lparr> trace := trace s @ [MemoSet nm] \<rparr>"
    by (auto simp: Let_def bind_eq_returns sum_case_eq_returns split: if_splits)
  note step = constrainDiscriminator_pinning [OF Suc.prems(2) c]
  have nm: "pinned discriminator defs0 defs1 nm"
    using Suc.prems(2) c by (rule constrainDiscriminator_pins)
  define J where "J = (\<lambda>(rootNode, m :: SubTreeMap, s :: ResolverState).
      pinning discriminator defs0 (specInJson s) \<and>
      (\<forall>k. pinned discriminator defs0 defs1 k \<longrightarrow> pinned discriminator defs0 (specInJson s) k) \<and>
      (\<forall>k \<in> treeNames rootNode. pinned discriminator defs0 (specInJson s) k))"
  have "J (rootNode, m1, s)"
  proof (rule foldM_invariant [OF fold])
    show "J (PolymorphicTree nm [], m, st\<lparr> trace := trace st @ [New nm], specInJson := defs1 \<rparr>)"
      using step nm by (simp add: J_def)
  next
    fix x a b
    assume a: "J a" and run: "(case a of (rootNode, m, s) \<Rightarrow>
                                 bind (createPolymorphicTree n x discriminator m s)
                                   (\<lambda>(childObj, m1, s1).
                                      returns (addChildByObject childObj rootNode, m1, s1))) = returns b"
    obtain r0 m0 s0 where a_eq: "a = (r0, m0, s0)" by (cases a)
    from run obtain childObj m2 s2 where
      call: "createPolymorphicTree n x discriminator m0 s0 = returns (childObj, m2, s2)"
      and b: "b = (addChildByObject childObj r0, m2, s2)"
      by (auto simp: a_eq bind_eq_returns)
    have inv0: "pinning discriminator defs0 (specInJson s0)" using a by (simp add: J_def a_eq)
    note ih = Suc.IH [OF call inv0]
    show "J b"
      using ih a treeNames_addChildByObject [of childObj r0]
      by (auto simp: J_def a_eq b)
  qed
  then show ?case using step by (auto simp: J_def res)
qed

section \<open>Polymorphism expansion\<close>

text \<open>
  C1. The document \<open>zooDocument\<close> has two sites that refer to the base \<open>Animal\<close>, which has
  a discriminator and the child \<open>Cat\<close>; neither is inside an \<open>allOf\<close> list or a \<open>oneOf\<close>
  array. After resolution the site in \<open>Zoo\<close> is the alternative-set over \<open>Animal\<close> and
  \<open>Cat\<close>; the site in \<open>zoneOffsetInfo\<close>, whose pointer contains the letters \<open>oneOf\<close>, is still
  the plain reference.
\<close>

theorem site_under_name_containing_oneOf_is_not_rewritten:
  "siteAfter (resolvePasses (Suc (Suc (Suc 0))) zooDocument)
       [''definitions'', ''Zoo'', ''properties'', ''pet'']
     = Some (SchemaObject noAttrs None None
               (Some [refTo ''#/definitions/Animal'', refTo ''#/definitions/Cat''])
               Absent Absent None None)
   \<and> siteAfter (resolvePasses (Suc (Suc (Suc 0))) zooDocument)
       [''definitions'', ''zoneOffsetInfo'', ''properties'', ''pet'']
     = Some (refTo ''#/definitions/Animal'')"
  by code_simp

text \<open>
  C5, as the claim has it, fails: \<open>Cat\<close> declares the discriminator property \<open>kind\<close> with the
  enum \<open>[Cat, Dog]\<close>, and after the tree of \<open>Animal\<close> is built the enum is \<open>[Cat]\<close>: the value
  \<open>Dog\<close> has been overwritten, not merged. On the base \<open>Animal\<close> the enum is merged, and so
  is not a single value.
\<close>

theorem enum_present_on_subtype_is_overwritten:
  "discriminatorProperty ''kind'' animalsDocument ''Cat'' = Some kindSchema \<and>
   discriminatorProperty ''kind'' animalsDocument ''Animal'' = Some kindSchema \<and>
   s_enum (attrs kindSchema) = Some [''Cat'', ''Dog''] \<and>
   (\<exists>t m' st' c a.
      createPolymorphicTree 2 ''Animal'' ''kind'' [] (initialState animalsDocument)
        = returns (t, m', st') \<and>
      discriminatorProperty ''kind'' (specInJson st') ''Cat'' = Some c \<and>
      s_enum (attrs c) = Some [''Cat''] \<and>
      discriminatorProperty ''kind'' (specInJson st') ''Animal'' = Some a \<and>
      s_enum (attrs a) = Some [''Animal'', ''Cat'', ''Dog''])"
proof -
  let ?after = "\<lparr> specInJson =
      [(''Animal'',
        SchemaObject (noAttrs\<lparr> s_type := Some ''object'', s_required := Some [''kind''],
                              s_discriminator := Some ''kind'' \<rparr>)
          (Some [(''kind'', objectOf (noAttrs\<lparr> s_type := Some ''string'',
                                              s_enum := Some [''Animal'', ''Cat'', ''Dog''] \<rparr>))])
          None None Absent Absent None None),
       (''Cat'',
        SchemaObject (noAttrs\<lparr> s_type := Some ''object'', s_required := Some [''kind''] \<rparr>)
          (Some [(''kind'', objectOf (noAttrs\<lparr> s_type := Some ''string'',
                                              s_enum := Some [''Cat''] \<rparr>))])
          (Some [refTo ''#/definitions/Animal'']) None Absent Absent None None)],
      resolvedAllOfModels = [],
      trace = [New ''Animal'', New ''Cat'', MemoSet ''Cat'', MemoSet ''Animal''] \<rparr>"
  have run: "createPolymorphicTree 2 ''Animal'' ''kind'' [] (initialState animalsDocument)
      = returns (PolymorphicTree ''Animal'' [(''Cat'', PolymorphicTree ''Cat'' [])],
                 [(''Cat'', PolymorphicTree ''Cat'' []),
                  (''Animal'', PolymorphicTree ''Animal'' [(''Cat'', PolymorphicTree ''Cat'' [])])],
                 ?after)"
    by code_simp
  have c: "discriminatorProperty ''kind'' (specInJson ?after) ''Cat''
             = Some (objectOf (noAttrs\<lparr> s_type := Some ''string'', s_enum := Some [''Cat''] \<rparr>))"
    and a: "discriminatorProperty ''kind'' (specInJson ?after) ''Animal''
             = Some (objectOf (noAttrs\<lparr> s_type := Some ''string'',
                                         s_enum := Some [''Animal'', ''Cat'', ''Dog''] \<rparr>))"
    and ec: "s_enum (attrs (objectOf (noAttrs\<lparr> s_type := Some ''string'', s_enum := Some [''Cat''] \<rparr>)))
             = Some [''Cat'']"
    and ea: "s_enum (attrs (objectOf (noAttrs\<lparr> s_type := Some ''string'',
                                         s_enum := Some [''Animal'', ''Cat'', ''Dog''] \<rparr>)))
             = Some [''Animal'', ''Cat'', ''Dog'']"
    by code_simp+
  have before: "discriminatorProperty ''kind'' animalsDocument ''Cat'' = Some kindSchema"
    "discriminatorProperty ''kind'' animalsDocument ''Animal'' = Some kindSchema"
    "s_enum (attrs kindSchema) = Some [''Cat'', ''Dog'']"
    by code_simp+
  show ?thesis
    by (intro conjI exI) (rule before run c a ec ea)+
qed


text \<open>
  C5, amended. When a tree has been built, every definition \<open>k\<close> named in it that declared
  the discriminator property as an object has that property with the enum \<open>pinnedEnum\<close>:
  the wire name alone (\<open>x-ms-discriminator-value\<close>, else the name \<open>k\<close>), except on a
  definition with a discriminator of its own whose property already has an enum (its
  own, or that of the definition its \<open>$ref\<close> names), where the wire name is put in front of
  the values already there unless it is one of them.
\<close>

theorem discriminator_enum_after_tree:
  assumes "createPolymorphicTree n root discriminator m st = returns (t, m', st')"
    and "k \<in> treeNames t"
    and "map_of (specInJson st) k = Some defn"
    and "discriminatorProperty discriminator (specInJson st) k = Some d"
    and "isObj d"
  shows "\<exists>d'. discriminatorProperty discriminator (specInJson st') k = Some d' \<and>
              s_enum (attrs d') = Some (pinnedEnum (specInJson st) k defn d)"
proof -
  have "pinning discriminator (specInJson st) (specInJson st)"
    by (simp add: pinning_def)
  from createPolymorphicTree_pins [OF assms(1) this] assms(2)
  have "pinned discriminator (specInJson st) (specInJson st') k" by simp
  then have "map_of (specInJson st) k = Some defn \<and>
              discriminatorProperty discriminator (specInJson st) k = Some d \<and> isObj d \<longrightarrow>
        (\<exists>d'. discriminatorProperty discriminator (specInJson st') k = Some d' \<and> isObj d' \<and>
              \<not> truthyStr (s_ref (attrs d')) \<and>
              s_enum (attrs d') = Some (pinnedEnum (specInJson st) k defn d))"
    unfolding pinned_def by (elim allE)
  with assms(3-5) obtain d' where
    "discriminatorProperty discriminator (specInJson st') k = Some d'"
    "s_enum (attrs d') = Some (pinnedEnum (specInJson st) k defn d)"
    by auto
  then show ?thesis by (intro exI conjI)
qed

theorem discriminator_enum_after_tree_witness:
  "\<exists>t m' st' defn d.
     createPolymorphicTree 2 ''Animal'' ''kind'' [] (initialState animalsDocument)
       = returns (t, m', st') \<and>
     ''Cat'' \<in> treeNames t \<and>
     map_of (specInJson (initialState animalsDocument)) ''Cat'' = Some defn \<and>
     discriminatorProperty ''kind'' (specInJson (initialState animalsDocument)) ''Cat'' = Some d \<and>
     isObj d \<and>
     pinnedEnum (specInJson (initialState animalsDocument)) ''Cat'' defn d = [''Cat''] \<and>
     (\<exists>d'. discriminatorProperty ''kind'' (specInJson st') ''Cat'' = Some d' \<and>
           s_enum (attrs d')
             = Some (pinnedEnum (specInJson (initialState animalsDocument)) ''Cat'' defn d))"
proof -
  let ?after = "\<lparr> specInJson =
      [(''Animal'',
        SchemaObject (noAttrs\<lparr> s_type := Some ''object'', s_required := Some [''kind''],
                              s_discriminator := Some ''kind'' \<rparr>)
          (Some [(''kind'', objectOf (noAttrs\<lparr> s_type := Some ''string'',
                                              s_enum := Some [''Animal'', ''Cat'', ''Dog''] \<rparr>))])
          None None Absent Absent None None),
       (''Cat'',
        SchemaObject (noAttrs\<lparr> s_type := Some ''object'', s_required := Some [''kind''] \<rparr>)
          (Some [(''kind'', objectOf (noAttrs\<lparr> s_type := Some ''string'',
                                              s_enum := Some [''Cat''] \<rparr>))])
          (Some [refTo ''#/definitions/Animal'']) None Absent Absent None None)],
      resolvedAllOfModels = [],
      trace = [New ''Animal'', New ''Cat'', MemoSet ''Cat'', MemoSet ''Animal''] \<rparr>"
  let ?tree = "PolymorphicTree ''Animal'' [(''Cat'', PolymorphicTree ''Cat'' [])]"
  have run: "createPolymorphicTree 2 ''Animal'' ''kind'' [] (initialState animalsDocument)
      = returns (?tree, [(''Cat'', PolymorphicTree ''Cat'' []), (''Animal'', ?tree)], ?after)"
    by code_simp
  have node: "''Cat'' \<in> treeNames ?tree" by simp
  have defn: "map_of (specInJson (initialState animalsDocument)) ''Cat''
                = Some (composing [''Animal''] [(''kind'', kindSchema)])"
    by code_simp
  have d: "discriminatorProperty ''kind'' (specInJson (initialState animalsDocument)) ''Cat''
             = Some kindSchema"
    by code_simp
  have obj: "isObj kindSchema" by code_simp
  have en: "pinnedEnum (specInJson (initialState animalsDocument)) ''Cat''
              (composing [''Animal''] [(''kind'', kindSchema)]) kindSchema = [''Cat'']"
    by code_simp
  from discriminator_enum_after_tree [OF run node defn d obj] obtain d' where
    after: "discriminatorProperty ''kind'' (specInJson ?after) ''Cat'' = Some d'"
    and pin: "s_enum (attrs d')
       = Some (pinnedEnum (specInJson (initialState animalsDocument)) ''Cat''
                 (composing [''Animal''] [(''kind'', kindSchema)]) kindSchema)"
    by (elim exE conjE)
  show ?thesis
    by (intro exI conjI) (rule run node defn d obj en after pin)+
qed

text \<open>
  C6, as the claim has it, fails. In \<open>diamondDocument\<close> the definition \<open>Lion\<close> composes both
  \<open>Cat\<close> and \<open>Feline\<close>, which compose the base \<open>Animal\<close>. In one resolution the node of \<open>Lion\<close>
  is constructed twice, once under each parent, and every name is stored in the memo map
  after the nodes of its children have been constructed and stored.
\<close>

theorem shared_descendant_is_built_twice:
  "traceAfter (resolvePasses 3 diamondDocument)
     = Some [New ''Animal'',
               New ''Cat'', New ''Lion'', MemoSet ''Lion'', MemoSet ''Cat'',
               New ''Feline'', New ''Lion'', MemoSet ''Lion'', MemoSet ''Feline'',
             MemoSet ''Animal'']"
  by code_simp

text \<open>
  C6, amended. Construction of the tree of \<open>nm\<close> returns or throws when the composition
  graph is acyclic, with fuel above the rank of \<open>nm\<close>. When it returns, the node of \<open>nm\<close> was
  constructed first and stored in the memo map last, after everything done for its
  descendants, and the map has it under \<open>nm\<close>. The memo map is read by \<open>resolveDiscriminator\<close>
  only: for a definition with a tree in the map no tree is built, so the map and the
  events are as they were.
\<close>

theorem tree_is_stored_after_its_children:
  "(compositionRanked rank (specInJson st) \<and> rank nm < n \<longrightarrow>
      (\<exists>r. createPolymorphicTree n nm discriminator m st = Some r)) \<and>
   (createPolymorphicTree n nm discriminator m st = returns (t, m1, st1) \<longrightarrow>
      node_name t = nm \<and> map_of m1 nm = Some t \<and>
      (\<exists>evs. trace st1 = trace st @ New nm # evs @ [MemoSet nm])) \<and>
   (map_of memo modelName = Some rootNode \<and>
    resolveDiscriminatorEntry fuel references modelName (memo, s) = returns (m2, s2) \<longrightarrow>
      m2 = memo \<and> trace s2 = trace s)"
proof (intro conjI impI)
  assume "compositionRanked rank (specInJson st) \<and> rank nm < n"
  then have "compositionRanked rank (specInJson st)" "rank nm < n" by simp_all
  from createPolymorphicTree_total [OF this, of discriminator m]
  show "\<exists>r. createPolymorphicTree n nm discriminator m st = Some r" by (elim exE conjE) (rule exI)
next
  assume run: "createPolymorphicTree n nm discriminator m st = returns (t, m1, st1)"
  note tr = createPolymorphicTree_trace [OF run]
  show "node_name t = nm" using tr by (elim conjE)
  show "map_of m1 nm = Some t" using tr by (elim conjE)
  show "\<exists>evs. trace st1 = trace st @ New nm # evs @ [MemoSet nm]" using tr by (elim conjE)
next
  assume "map_of memo modelName = Some rootNode \<and>
    resolveDiscriminatorEntry fuel references modelName (memo, s) = returns (m2, s2)"
  then have h: "map_of memo modelName = Some rootNode"
    "resolveDiscriminatorEntry fuel references modelName (memo, s) = returns (m2, s2)" by simp_all
  note r = resolveDiscriminatorEntry_reuses [OF h]
  show "m2 = memo" using r by (elim conjE)
  show "trace s2 = trace s" using r by (elim conjE)
qed

theorem tree_is_stored_after_its_children_witness:
  "compositionRanked (\<lambda>name. if name = ''Animal'' then 1 else 0)
     (specInJson (initialState animalsDocument)) \<and>
   (\<exists>r. createPolymorphicTree 2 ''Animal'' ''kind'' [] (initialState animalsDocument) = Some r) \<and>
   (\<exists>t m1 st1.
      createPolymorphicTree 2 ''Animal'' ''kind'' [] (initialState animalsDocument)
        = returns (t, m1, st1) \<and>
      node_name t = ''Animal'' \<and> map_of m1 ''Animal'' = Some t \<and>
      (\<exists>evs. trace st1 = trace (initialState animalsDocument)
                            @ New ''Animal'' # evs @ [MemoSet ''Animal'']) \<and>
      resolveDiscriminatorEntry 0 (findRefs animalsDocument) ''Animal'' (m1, st1)
        = returns (m1, st1))"
proof -
  let ?rank = "\<lambda>name. if name = ''Animal'' then 1 else (0 :: nat)"
  let ?after = "\<lparr> specInJson =
      [(''Animal'',
        SchemaObject (noAttrs\<lparr> s_type := Some ''object'', s_required := Some [''kind''],
                              s_discriminator := Some ''kind'' \<rparr>)
          (Some [(''kind'', objectOf (noAttrs\<lparr> s_type := Some ''string'',
                                              s_enum := Some [''Animal'', ''Cat'', ''Dog''] \<rparr>))])
          None None Absent Absent None None),
       (''Cat'',
        SchemaObject (noAttrs\<lparr> s_type := Some ''object'', s_required := Some [''kind''] \<rparr>)
          (Some [(''kind'', objectOf (noAttrs\<lparr> s_type := Some ''string'',
                                              s_enum := Some [''Cat''] \<rparr>))])
          (Some [refTo ''#/definitions/Animal'']) None Absent Absent None None)],
      resolvedAllOfModels = [],
      trace = [New ''Animal'', New ''Cat'', MemoSet ''Cat'', MemoSet ''Animal''] \<rparr>"
  let ?tree = "PolymorphicTree ''Animal'' [(''Cat'', PolymorphicTree ''Cat'' [])]"
  let ?memo = "[(''Cat'', PolymorphicTree ''Cat'' []), (''Animal'', ?tree)]"
  note T = tree_is_stored_after_its_children
    [where rank = ?rank and st = "initialState animalsDocument" and nm = "''Animal''" and n = 2
       and discriminator = "''kind''" and m = "[]" and t = ?tree and ?m1.0 = ?memo
       and ?st1.0 = ?after and memo = ?memo and modelName = "''Animal''" and rootNode = ?tree
       and fuel = 0 and references = "findRefs animalsDocument" and s = ?after
       and ?m2.0 = ?memo and ?s2.0 = ?after]
  have ranked: "compositionRanked ?rank (specInJson (initialState animalsDocument))"
    by (simp add: compositionRanked_def initialState_def animalsDocument_def discriminated_def
          composing_def refTo_def objectOf_def noAttrs_def)
  have run: "createPolymorphicTree 2 ''Animal'' ''kind'' [] (initialState animalsDocument)
      = returns (?tree, ?memo, ?after)"
    by code_simp
  have stored: "map_of ?memo ''Animal'' = Some ?tree" by simp
  have again: "resolveDiscriminatorEntry 0 (findRefs animalsDocument) ''Animal'' (?memo, ?after)
      = returns (?memo, ?after)"
    by code_simp
  have total: "\<exists>r. createPolymorphicTree 2 ''Animal'' ''kind'' [] (initialState animalsDocument) = Some r"
    by (rule T [THEN conjunct1, THEN mp], rule conjI [OF ranked], simp)
  have shape: "node_name ?tree = ''Animal'' \<and> map_of ?memo ''Animal'' = Some ?tree \<and>
      (\<exists>evs. trace ?after = trace (initialState animalsDocument)
                            @ New ''Animal'' # evs @ [MemoSet ''Animal''])"
    by (rule T [THEN conjunct2, THEN conjunct1, THEN mp]) (rule run)
  have same: "?memo = ?memo \<and> trace ?after = trace ?after"
    by (rule T [THEN conjunct2, THEN conjunct2, THEN mp]) (rule conjI [OF stored again])
  note s1 = shape [THEN conjunct1] and s2 = shape [THEN conjunct2, THEN conjunct1]
    and s3 = shape [THEN conjunct2, THEN conjunct2]
  show ?thesis
    apply (rule conjI [OF ranked])
    apply (rule conjI [OF total])
    apply (rule exI [where x = ?tree], rule exI [where x = ?memo], rule exI [where x = ?after])
    apply (rule conjI [OF run])
    apply (rule conjI [OF s1])
    apply (rule conjI [OF s2])
    apply (rule conjI [OF s3])
    apply (rule again)
    done
qed

section \<open>The example generator: the loop over the properties\<close>







section \<open>The example generator: a cycle through an array of a polymorphic base\<close>











section \<open>The example generator: cycles\<close>






section \<open>The example generator: cache reuse\<close>

text \<open>
  C4, at a document where the code departs from it. \<open>Zoo\<close> has two properties of the
  polymorphic type \<open>Animal\<close>. Generating \<open>Zoo\<close> gives the first property the item built for the
  subtype \<open>Cat\<close> (which is in the mock cache afterwards) and the second property
  \<open>undefined\<close>: the reference to \<open>Animal\<close> is still in the visited set, here even after the
  call has returned, because \<open>mockForDiscriminator\<close> hands \<open>removeFromSet\<close> the resolved
  definition, which has no \<open>$ref\<close>.
\<close>

theorem second_occurrence_of_polymorphic_base_is_undefined:
  "getMockCachedObj (collaboratorsFor zooTable) (Suc (Suc (Suc (Suc 0)))) ''zoo''
     (refTo ''#/definitions/Zoo'') False emptyCaches
   = returns (zooItem, {''#/definitions/Animal''},
        \<lparr> exampleCache = [],
          mockCache = [(''/definitions/Cat'', catItem), (''/definitions/Zoo'', zooItem)],
          entropy = 0, logged = [] \<rparr>)"
  by code_simp

section \<open>The example generator: malformed schemas\<close>








section \<open>The example generator: discriminator branch selection\<close>

lemma discriminator_branch:
  assumes obj: "isObj schema"
    and fresh: "\<forall>r. s_ref (attrs schema) = Some r \<longrightarrow> r \<notin> visited"
    and nocache: "getCache st schema = None"
    and res: "resolveRefObj env schema = base" and res2: "resolveRefObj env base = base"
    and base: "base = SchemaObject a (Some props) None oo it ap (Some ((k0, s0) # dm)) sc"
    and noref: "s_ref a = None" and isO: "isObject env base"
    and dist: "distinct (map fst props)"
    and disc: "s_discriminator a = Some d" "d \<noteq> []" "d \<in> fst ` set props"
    and nodv: "\<not> truthyStr dv"
    and sub: "map_of ((k0, s0) # dm)
           (case chosenDiscriminatorValue props d k0 of None \<Rightarrow> ''undefined'' | Some v \<Rightarrow> v)
         = Some subtype"
    and tr: "truthySchema subtype"
  shows "mockCachedObj env (Suc (Suc m)) objName schema example visited isRequest dv st =
         bind (mockCachedObj env (Suc m) d subtype (VObj []) {} isRequest
                 (chosenDiscriminatorValue props d k0) st)
           (\<lambda>(cacheItem, vis, st1).
              returns (if truthy cacheItem then cacheItem else VUndefined,
                       (case s_ref (attrs schema) of None \<Rightarrow> visited | Some r \<Rightarrow> insert r visited),
                       st1))"
proof -
  define vis1 where "vis1 = (case s_ref (attrs schema) of None \<Rightarrow> visited | Some r \<Rightarrow> insert r visited)"
  define R where "R = mockCachedObj env (Suc m)"
  have sp: "spread [] props = props"
    using spread_distinct [of props "[]"] dist by simp
  have gp: "getProperties env (Suc m) base v = returns (props, v)" for v
    by (simp add: base sp)
  have gd: "getDiscriminator env (Suc m) base v = returns (Some d, v)" for v
    by (simp add: base disc)
  obtain dprop where dprop: "map_of props d = Some dprop"
    using disc(3) by (metis domD dom_map_of_conv_image_fst)
  have tb: "truthySchema base" by (simp add: base)
  have gds: "getDefSpec env schema visited = returns (base, vis1)"
    by (simp add: getDefSpec_def obj res vis1_def tb)
  have gdb: "getDefSpec env base v = returns (base, v)" for v
    by (simp add: getDefSpec_def res2 tb) (simp add: base noref)
  have rm: "removeFromSet base v = returns v" for v
    by (simp add: removeFromSet_def base noref)
  have nA: "base \<noteq> Absent" and dmap: "discriminatorMap base = Some ((k0, s0) # dm)"
    by (simp_all add: base)
  have fe: "s_enum (attrs dprop) = None" if "\<not> truthySchema dprop"
    using that by (cases dprop) (auto simp: noAttrs_def)
  have mfd: "mockForDiscriminator env (Suc m) R base ex d isRequest vis1 st =
         bind (R d subtype (VObj []) {} isRequest (chosenDiscriminatorValue props d k0) st)
           (\<lambda>(cacheItem, vis, st1).
              returns (if truthy cacheItem then cacheItem else VUndefined, vis1, st1))" for ex
    unfolding mockForDiscriminator_def gdb
    using sub tr fe
    by (cases "s_enum (attrs dprop)")
       (auto simp: nA dmap gp dprop rm Let_def chosenDiscriminatorValue_def
          simp del: getProperties.simps map_of.simps split: list.splits)
  have nv: "\<not> (case s_ref (attrs schema) of None \<Rightarrow> False | Some r \<Rightarrow> r \<in> visited)"
    using fresh by (auto split: option.splits)
  have "mockCachedObj env (Suc (Suc m)) objName schema example visited isRequest dv st =
        bind (mockForDiscriminator env (Suc m) R base (if truthy example then example else VObj [])
                d isRequest vis1 st)
          (\<lambda>(r, vis4, st1). returns (if truthy r then r else VUndefined, vis4, st1))"
    using disc nodv
    by (simp add: mockCachedObjBody_def obj nv nocache gds isO gp gd R_def Let_def
          del: mockCachedObj.simps(2) getProperties.simps getDiscriminator.simps)
       (simp add: mockCachedObjBody_def obj nv nocache gds isO gp gd R_def Let_def
          del: getProperties.simps getDiscriminator.simps)
  also have "\<dots> = bind (R d subtype (VObj []) {} isRequest (chosenDiscriminatorValue props d k0) st)
           (\<lambda>(cacheItem, vis, st1).
              returns (if truthy cacheItem then cacheItem else VUndefined, vis1, st1))"
    unfolding mfd
    by (cases "R d subtype (VObj []) {} isRequest (chosenDiscriminatorValue props d k0) st"
          rule: result_cases) auto
  finally show ?thesis by (simp add: R_def vis1_def)
qed


text \<open>
  C10. When \<open>mockCachedObj\<close> hands an object over to the discriminator branch and the
  subtype is in the discriminator map, the result is that of generating the subtype
  from the seed \<open>{}\<close> with a new visited set and the chosen value pinned (a call that
  answers from the caches when the subtype is in one): the seed the caller supplied
  does not occur in it, so any two seeds give the same result.
\<close>

theorem discriminator_branch_discards_seed:
  assumes "isObj schema"
    and "\<forall>r. s_ref (attrs schema) = Some r \<longrightarrow> r \<notin> visited"
    and "getCache st schema = None"
    and "resolveRefObj env schema = base" and "resolveRefObj env base = base"
    and "base = SchemaObject a (Some props) None oo it ap (Some ((k0, s0) # dm)) sc"
    and "s_ref a = None" and "isObject env base"
    and "distinct (map fst props)"
    and "s_discriminator a = Some d" and "d \<noteq> []" and "d \<in> fst ` set props"
    and "\<not> truthyStr dv"
    and "map_of ((k0, s0) # dm)
           (case chosenDiscriminatorValue props d k0 of None \<Rightarrow> ''undefined'' | Some v \<Rightarrow> v)
         = Some subtype"
    and "truthySchema subtype"
  shows "mockCachedObj env (Suc (Suc m)) objName schema example visited isRequest dv st =
         bind (mockCachedObj env (Suc m) d subtype (VObj []) {} isRequest
                 (chosenDiscriminatorValue props d k0) st)
           (\<lambda>(cacheItem, vis, st1).
              returns (if truthy cacheItem then cacheItem else VUndefined,
                       (case s_ref (attrs schema) of None \<Rightarrow> visited | Some r \<Rightarrow> insert r visited),
                       st1)) \<and>
         mockCachedObj env (Suc (Suc m)) objName schema example visited isRequest dv st =
         mockCachedObj env (Suc (Suc m)) objName schema example' visited isRequest dv st"
  using discriminator_branch [OF assms, where example = example]
        discriminator_branch [OF assms, where example = example']
  by (simp del: mockCachedObj.simps)

theorem discriminator_branch_discards_seed_witness:
  "mockCachedObj (collaboratorsFor zooTable) (Suc (Suc (Suc 0))) ''pet'' (refTo ''#/definitions/Animal'')
     (VObj [(''kind'', VScalar (SStr ''Dog'')), (''name'', VScalar (SStr ''Rex''))]) {} False None
     emptyCaches
   = returns (catItem, {''#/definitions/Animal''},
        \<lparr> exampleCache = [], mockCache = [(''/definitions/Cat'', catItem)],
          entropy = 0, logged = [] \<rparr>) \<and>
   mockCachedObj (collaboratorsFor zooTable) (Suc (Suc (Suc 0))) ''pet'' (refTo ''#/definitions/Animal'')
     (VObj [(''kind'', VScalar (SStr ''Dog'')), (''name'', VScalar (SStr ''Rex''))]) {} False None
     emptyCaches
   = mockCachedObj (collaboratorsFor zooTable) (Suc (Suc (Suc 0))) ''pet''
       (refTo ''#/definitions/Animal'') VUndefined {} False None emptyCaches"
proof -
  define base where "base = SchemaObject (noAttrs\<lparr> s_discriminator := Some ''kind'' \<rparr>)
           (Some [(''kind'', stringSchema)]) None None Absent Absent
           (Some [(''Cat'', refTo ''#/definitions/Cat'')]) None"
  have sub: "mockCachedObj (collaboratorsFor zooTable) (Suc (Suc 0)) ''kind''
               (refTo ''#/definitions/Cat'') (VObj []) {} False (Some ''Cat'') emptyCaches
             = returns (catItem, {},
                 \<lparr> exampleCache = [], mockCache = [(''/definitions/Cat'', catItem)],
                   entropy = 0, logged = [] \<rparr>)"
    by code_simp
  have ch: "chosenDiscriminatorValue [(''kind'', stringSchema)] ''kind'' ''Cat'' = Some ''Cat''"
    by code_simp
  have h: "isObj (refTo ''#/definitions/Animal'')"
    "\<forall>r. s_ref (attrs (refTo ''#/definitions/Animal'')) = Some r \<longrightarrow> r \<notin> {}"
    "getCache emptyCaches (refTo ''#/definitions/Animal'') = None"
    "resolveRefObj (collaboratorsFor zooTable) (refTo ''#/definitions/Animal'') = base"
    "resolveRefObj (collaboratorsFor zooTable) base = base"
    "base = SchemaObject (noAttrs\<lparr> s_discriminator := Some ''kind'' \<rparr>)
           (Some [(''kind'', stringSchema)]) None None Absent Absent
           (Some ((''Cat'', refTo ''#/definitions/Cat'') # [])) None"
    "s_ref (noAttrs\<lparr> s_discriminator := Some ''kind'' \<rparr>) = None"
    "isObject (collaboratorsFor zooTable) base"
    "distinct (map fst [(''kind'', stringSchema)])"
    "s_discriminator (noAttrs\<lparr> s_discriminator := Some ''kind'' \<rparr>) = Some ''kind''"
    "''kind'' \<noteq> []" "''kind'' \<in> fst ` set [(''kind'', stringSchema)]"
    "\<not> truthyStr None"
    "map_of ((''Cat'', refTo ''#/definitions/Cat'') # [])
       (case chosenDiscriminatorValue [(''kind'', stringSchema)] ''kind'' ''Cat'' of
          None \<Rightarrow> ''undefined'' | Some v \<Rightarrow> v) = Some (refTo ''#/definitions/Cat'')"
    "truthySchema (refTo ''#/definitions/Cat'')"
    by (simp_all add: ch base_def refTo_def objectOf_def noAttrs_def collaboratorsFor_def
          tableLoader_def zooTable_def emptyCaches_def getCache_def cacheKey_def)
  have vis: "(case s_ref (attrs (refTo ''#/definitions/Animal'')) of
                None \<Rightarrow> {} | Some r \<Rightarrow> insert r {}) = {''#/definitions/Animal''}"
    by (simp add: refTo_def objectOf_def noAttrs_def)
  have tc: "truthy catItem" by (simp add: catItem_def)
  have R: "bind (mockCachedObj (collaboratorsFor zooTable) (Suc (Suc 0)) ''kind''
                   (refTo ''#/definitions/Cat'') (VObj []) {} False
                   (chosenDiscriminatorValue [(''kind'', stringSchema)] ''kind'' ''Cat'') emptyCaches)
             (\<lambda>(cacheItem, vis, st1).
                returns (if truthy cacheItem then cacheItem else VUndefined,
                         (case s_ref (attrs (refTo ''#/definitions/Animal'')) of
                            None \<Rightarrow> {} | Some r \<Rightarrow> insert r {}),
                         st1))
           = returns (catItem, {''#/definitions/Animal''},
               \<lparr> exampleCache = [], mockCache = [(''/definitions/Cat'', catItem)],
                 entropy = 0, logged = [] \<rparr>)"
    unfolding ch sub vis by (simp add: tc)
  note T = discriminator_branch_discards_seed [OF h, where m = "Suc 0" and objName = "''pet''"
         and example = "VObj [(''kind'', VScalar (SStr ''Dog'')), (''name'', VScalar (SStr ''Rex''))]"
         and isRequest = False and example' = VUndefined]
  from T show ?thesis unfolding R .
qed

section \<open>Request parameters\<close>

lemma arrayIndex_inj: "arrayIndex k = Some i \<Longrightarrow> arrayIndex k' = Some i \<Longrightarrow> k = k'"
  by (auto simp: arrayIndex_def split: option.splits if_splits)

lemma setProp_other:
  assumes "setProp ex k v = Inr ex'" and "k \<noteq> nm" and "hasKey env ex nm = Inr True"
  shows "getProp ex' nm = getProp ex nm \<and> hasKey env ex' nm = Inr True"
proof (cases ex)
  case (VObj kvs)
  then show ?thesis using assms by (auto simp: update_conv')
next
  case (VArr xs)
  then show ?thesis using assms
    by (auto simp: nth_append nth_list_update split: option.splits dest: arrayIndex_inj)
qed (use assms in auto)

lemma skip_present_parameter:
  assumes "isObj element" and "resolveRefObj env element = paramEle" and "isObj paramEle"
    and "parameterName paramEle = nm"
    and "nm \<noteq> ''resourceGroupName''" and "nm \<noteq> ''api-version''"
    and "parameterSchema paramEle = None"
    and "hasKey env paramExample nm = Inr True"
  shows "mockParameter env fuel version rp element (paramExample, st) = returns (paramExample, st)"
  using assms
  by (cases paramEle) (auto simp: mockParameter_def getDefSpec_def Let_def parameterName_def)

lemma named_parameter_is_overwritten:
  assumes "isObj element" and "s_name (attrs (resolveRefObj env element)) = Some ''resourceGroupName''"
  shows "mockParameter env fuel version rp element (VObj kvs, st)
         = returns (VObj (AList.update ''resourceGroupName'' (VScalar (SStr (''rg'' @ rp))) kvs), st)"
  using assms
  by (cases "resolveRefObj env element") (auto simp: mockParameter_def getDefSpec_def Let_def noAttrs_def)

lemma version_parameter_is_overwritten:
  assumes "isObj element" and "s_name (attrs (resolveRefObj env element)) = Some ''api-version''"
  shows "mockParameter env fuel version rp element (VObj kvs, st)
         = returns (VObj (AList.update ''api-version'' version kvs), st)"
  using assms
  by (cases "resolveRefObj env element") (auto simp: mockParameter_def getDefSpec_def Let_def noAttrs_def)

lemma mockParameter_keeps:
  assumes step: "mockParameter env fuel version rp element (ex, st) = returns (ex', st')"
    and present: "hasKey env ex nm = Inr True"
    and plain: "parameterName (resolveRefObj env element) = nm \<longrightarrow>
                parameterSchema (resolveRefObj env element) = None"
    and ns: "nm \<noteq> ''resourceGroupName''" "nm \<noteq> ''api-version''"
  shows "getProp ex' nm = getProp ex nm \<and> hasKey env ex' nm = Inr True"
proof -
  define paramEle where "paramEle = resolveRefObj env element"
  define pname where "pname = parameterName paramEle"
  have keep: "getProp e nm = getProp ex nm \<and> hasKey env e nm = Inr True"
    if "setProp ex k v = Inr e" "k \<noteq> nm" for e k v
    using setProp_other [OF that present] .
  have pn: "pname \<noteq> nm" if "parameterSchema paramEle \<noteq> None"
    using that plain by (auto simp: pname_def paramEle_def)
  have absent: "pname \<noteq> nm" if "hasKey env ex pname = Inr False"
    using that present by auto
  from step ns pn absent present show ?thesis
    unfolding mockParameter_def getDefSpec_def paramEle_def [symmetric]
    by (auto simp: Let_def pname_def [symmetric] bind_eq_returns sum_case_eq_returns
          split: if_splits dest: keep)
qed

lemma mockRequest_keeps:
  assumes run: "mockRequest env fuel version paramExample paramSpec rp st = returns (paramExample', st')"
    and present: "hasKey env paramExample nm = Inr True"
    and plain: "\<forall>element \<in> snd ` set paramSpec.
                  parameterName (resolveRefObj env element) = nm \<longrightarrow>
                  parameterSchema (resolveRefObj env element) = None"
    and ns: "nm \<noteq> ''resourceGroupName''" "nm \<noteq> ''api-version''"
  shows "getProp paramExample' nm = getProp paramExample nm \<and> hasKey env paramExample' nm = Inr True"
proof -
  define I where "I = (\<lambda>(ex, s :: GeneratorState). getProp ex nm = getProp paramExample nm \<and> hasKey env ex nm = Inr True)"
  have "I (paramExample', st')"
  proof (rule foldM_invariant [OF run [unfolded mockRequest_def]])
    show "I (paramExample, st)" by (simp add: I_def present)
  next
    fix x a b
    assume x: "x \<in> set (map snd paramSpec)" and a: "I a"
      and step: "mockParameter env fuel version rp x a = returns b"
    obtain ex s where [simp]: "a = (ex, s)" by (cases a)
    obtain ex' s' where [simp]: "b = (ex', s')" by (cases b)
    have pl: "parameterName (resolveRefObj env x) = nm \<longrightarrow>
              parameterSchema (resolveRefObj env x) = None"
      using plain x by auto
    from a have pr: "hasKey env ex nm = Inr True" by (simp add: I_def)
    from mockParameter_keeps [OF step [simplified] pr pl ns] a
    show "I b" by (simp add: I_def)
  qed
  then show ?thesis by (simp add: I_def)
qed


text \<open>
  C9 fails as stated: the parameter \<open>resourceGroupName\<close> is present in the supplied example
  and its value is replaced.
\<close>

theorem supplied_resource_group_is_overwritten:
  "mockRequest (collaboratorsFor []) (Suc 0) (VScalar (SStr ''2018''))
     (VObj [(''resourceGroupName'', VScalar (SStr ''mine''))])
     [(''group'', objectOf (noAttrs\<lparr> s_name := Some ''resourceGroupName'',
                                     s_type := Some ''string'' \<rparr>))]
     ''compute'' emptyCaches
   = returns (VObj [(''resourceGroupName'', VScalar (SStr ''rgcompute''))], emptyCaches)"
  by code_simp

text \<open>
  C9 (as the code has it). A parameter whose name \<open>nm\<close> is not \<open>resourceGroupName\<close> or
  \<open>api-version\<close> and which has no key \<open>schema\<close> is skipped when \<open>nm in paramExample\<close> holds:
  example and state are returned as they are. When no parameter of the operation with
  that name has a key \<open>schema\<close>, the value under \<open>nm\<close> is the same after the whole of
  \<open>mockRequest\<close>. A parameter named \<open>resourceGroupName\<close> or \<open>api-version\<close> is written whatever
  the example holds, with \<open>rg\<close> followed by the resource provider and with the version of
  the specification.
\<close>

theorem supplied_plain_parameter_is_kept:
  "(hasKey env paramExample nm = Inr True \<and>
    nm \<noteq> ''resourceGroupName'' \<and> nm \<noteq> ''api-version'' \<and>
    isObj element \<and> resolveRefObj env element = paramEle \<and> isObj paramEle \<and>
    parameterName paramEle = nm \<and> parameterSchema paramEle = None \<longrightarrow>
      mockParameter env fuel version rp element (paramExample, st)
      = returns (paramExample, st)) \<and>
   (hasKey env paramExample nm = Inr True \<and>
    nm \<noteq> ''resourceGroupName'' \<and> nm \<noteq> ''api-version'' \<and>
    mockRequest env fuel version paramExample paramSpec rp st = returns (paramExample', st') \<and>
    (\<forall>element \<in> snd ` set paramSpec.
       parameterName (resolveRefObj env element) = nm \<longrightarrow>
       parameterSchema (resolveRefObj env element) = None) \<longrightarrow>
      getProp paramExample' nm = getProp paramExample nm \<and>
      hasKey env paramExample' nm = Inr True) \<and>
   (isObj element \<and> s_name (attrs (resolveRefObj env element)) = Some ''resourceGroupName'' \<longrightarrow>
      mockParameter env fuel version rp element (VObj kvs, st)
      = returns (VObj (AList.update ''resourceGroupName'' (VScalar (SStr (''rg'' @ rp))) kvs), st)) \<and>
   (isObj element \<and> s_name (attrs (resolveRefObj env element)) = Some ''api-version'' \<longrightarrow>
      mockParameter env fuel version rp element (VObj kvs, st)
      = returns (VObj (AList.update ''api-version'' version kvs), st))"
proof (intro conjI impI)
  assume h: "hasKey env paramExample nm = Inr True \<and>
    nm \<noteq> ''resourceGroupName'' \<and> nm \<noteq> ''api-version'' \<and>
    isObj element \<and> resolveRefObj env element = paramEle \<and> isObj paramEle \<and>
    parameterName paramEle = nm \<and> parameterSchema paramEle = None"
  then have "isObj element" "resolveRefObj env element = paramEle" "isObj paramEle"
    "parameterName paramEle = nm" "nm \<noteq> ''resourceGroupName''" "nm \<noteq> ''api-version''"
    "parameterSchema paramEle = None" "hasKey env paramExample nm = Inr True"
    by simp_all
  then show "mockParameter env fuel version rp element (paramExample, st) = returns (paramExample, st)"
    by (rule skip_present_parameter)
next
  assume h: "hasKey env paramExample nm = Inr True \<and>
    nm \<noteq> ''resourceGroupName'' \<and> nm \<noteq> ''api-version'' \<and>
    mockRequest env fuel version paramExample paramSpec rp st = returns (paramExample', st') \<and>
    (\<forall>element \<in> snd ` set paramSpec.
       parameterName (resolveRefObj env element) = nm \<longrightarrow>
       parameterSchema (resolveRefObj env element) = None)"
  then have "mockRequest env fuel version paramExample paramSpec rp st = returns (paramExample', st')"
    "hasKey env paramExample nm = Inr True"
    "\<forall>element \<in> snd ` set paramSpec.
       parameterName (resolveRefObj env element) = nm \<longrightarrow>
       parameterSchema (resolveRefObj env element) = None"
    "nm \<noteq> ''resourceGroupName''" "nm \<noteq> ''api-version''"
    by simp_all
  then have k: "getProp paramExample' nm = getProp paramExample nm \<and>
                hasKey env paramExample' nm = Inr True"
    by (rule mockRequest_keeps)
  from k show "getProp paramExample' nm = getProp paramExample nm" ..
  from k show "hasKey env paramExample' nm = Inr True" ..
next
  assume "isObj element \<and> s_name (attrs (resolveRefObj env element)) = Some ''resourceGroupName''"
  then have "isObj element" "s_name (attrs (resolveRefObj env element)) = Some ''resourceGroupName''"
    by simp_all
  then show "mockParameter env fuel version rp element (VObj kvs, st)
      = returns (VObj (AList.update ''resourceGroupName'' (VScalar (SStr (''rg'' @ rp))) kvs), st)"
    by (rule named_parameter_is_overwritten)
next
  assume "isObj element \<and> s_name (attrs (resolveRefObj env element)) = Some ''api-version''"
  then have "isObj element" "s_name (attrs (resolveRefObj env element)) = Some ''api-version''"
    by simp_all
  then show "mockParameter env fuel version rp element (VObj kvs, st)
      = returns (VObj (AList.update ''api-version'' version kvs), st)"
    by (rule version_parameter_is_overwritten)
qed

theorem supplied_plain_parameter_is_kept_witness:
  "hasKey (collaboratorsFor []) (VObj [(''top'', VScalar (SNum 5))]) ''top'' = Inr True \<and>
   mockParameter (collaboratorsFor []) (Suc 0) (VScalar (SStr ''2018'')) ''compute''
     (objectOf (noAttrs\<lparr> s_name := Some ''top'', s_type := Some ''integer'' \<rparr>))
     (VObj [(''top'', VScalar (SNum 5))], emptyCaches)
   = returns (VObj [(''top'', VScalar (SNum 5))], emptyCaches) \<and>
   mockRequest (collaboratorsFor []) (Suc 0) (VScalar (SStr ''2018''))
     (VObj [(''top'', VScalar (SNum 5))])
     [(''t'', objectOf (noAttrs\<lparr> s_name := Some ''top'', s_type := Some ''integer'' \<rparr>))]
     ''compute'' emptyCaches
   = returns (VObj [(''top'', VScalar (SNum 5))], emptyCaches) \<and>
   getProp (VObj [(''top'', VScalar (SNum 5))]) ''top''
   = getProp (VObj [(''top'', VScalar (SNum 5))]) ''top'' \<and>
   mockParameter (collaboratorsFor []) (Suc 0) (VScalar (SStr ''2018'')) ''compute''
     (objectOf (noAttrs\<lparr> s_name := Some ''resourceGroupName'', s_type := Some ''string'' \<rparr>))
     (VObj [(''resourceGroupName'', VScalar (SStr ''mine''))], emptyCaches)
   = returns (VObj (AList.update ''resourceGroupName'' (VScalar (SStr (''rg'' @ ''compute'')))
                      [(''resourceGroupName'', VScalar (SStr ''mine''))]), emptyCaches) \<and>
   mockParameter (collaboratorsFor []) (Suc 0) (VScalar (SStr ''2018'')) ''compute''
     (objectOf (noAttrs\<lparr> s_name := Some ''api-version'', s_type := Some ''string'' \<rparr>))
     (VObj [(''api-version'', VScalar (SStr ''2001''))], emptyCaches)
   = returns (VObj (AList.update ''api-version'' (VScalar (SStr ''2018''))
                      [(''api-version'', VScalar (SStr ''2001''))]), emptyCaches)"
proof -
  let ?env = "collaboratorsFor []"
  let ?p = "objectOf (noAttrs\<lparr> s_name := Some ''top'', s_type := Some ''integer'' \<rparr>)"
  let ?g = "objectOf (noAttrs\<lparr> s_name := Some ''resourceGroupName'', s_type := Some ''string'' \<rparr>)"
  let ?v = "objectOf (noAttrs\<lparr> s_name := Some ''api-version'', s_type := Some ''string'' \<rparr>)"
  let ?ex = "VObj [(''top'', VScalar (SNum 5))]"
  have run: "mockRequest ?env (Suc 0) (VScalar (SStr ''2018'')) ?ex [(''t'', ?p)] ''compute'' emptyCaches
   = returns (?ex, emptyCaches)"
    by code_simp
  have present: "hasKey ?env ?ex ''top'' = Inr True" by simp
  have ns: "''top'' \<noteq> ''resourceGroupName''" "''top'' \<noteq> ''api-version''" by simp_all
  have e: "isObj ?p" "resolveRefObj ?env ?p = ?p" "parameterName ?p = ''top''"
    "parameterSchema ?p = None"
    by (simp_all add: objectOf_def noAttrs_def collaboratorsFor_def tableLoader_def
          parameterName_def)
  have pl: "\<forall>element \<in> snd ` set [(''t'', ?p)].
              parameterName (resolveRefObj ?env element) = ''top'' \<longrightarrow>
              parameterSchema (resolveRefObj ?env element) = None"
    by (simp add: objectOf_def noAttrs_def collaboratorsFor_def tableLoader_def)
  have g: "isObj ?g \<and> s_name (attrs (resolveRefObj ?env ?g)) = Some ''resourceGroupName''"
    and v: "isObj ?v \<and> s_name (attrs (resolveRefObj ?env ?v)) = Some ''api-version''"
    by (simp_all add: objectOf_def noAttrs_def collaboratorsFor_def tableLoader_def)
  have A: "mockParameter ?env (Suc 0) (VScalar (SStr ''2018'')) ''compute'' ?p (?ex, emptyCaches)
   = returns (?ex, emptyCaches)"
    by (rule supplied_plain_parameter_is_kept
              [where nm = "''top''" and paramEle = ?p, THEN conjunct1, THEN mp])
       (intro conjI present ns e)
  have B: "getProp ?ex ''top'' = getProp ?ex ''top'' \<and> hasKey ?env ?ex ''top'' = Inr True"
    by (rule supplied_plain_parameter_is_kept
              [where env = ?env and fuel = "Suc 0" and nm = "''top''"
                 and version = "VScalar (SStr ''2018'')" and paramSpec = "[(''t'', ?p)]"
                 and rp = "''compute''" and st = emptyCaches and st' = emptyCaches,
               THEN conjunct2, THEN conjunct1, THEN mp])
       (intro conjI present ns run pl)
  have C: "mockParameter ?env (Suc 0) (VScalar (SStr ''2018'')) ''compute'' ?g
     (VObj [(''resourceGroupName'', VScalar (SStr ''mine''))], emptyCaches)
   = returns (VObj (AList.update ''resourceGroupName'' (VScalar (SStr (''rg'' @ ''compute'')))
                      [(''resourceGroupName'', VScalar (SStr ''mine''))]), emptyCaches)"
    by (rule supplied_plain_parameter_is_kept
              [THEN conjunct2, THEN conjunct2, THEN conjunct1, THEN mp]) (rule g)
  have D: "mockParameter ?env (Suc 0) (VScalar (SStr ''2018'')) ''compute'' ?v
     (VObj [(''api-version'', VScalar (SStr ''2001''))], emptyCaches)
   = returns (VObj (AList.update ''api-version'' (VScalar (SStr ''2018''))
                      [(''api-version'', VScalar (SStr ''2001''))]), emptyCaches)"
    by (rule supplied_plain_parameter_is_kept
              [THEN conjunct2, THEN conjunct2, THEN conjunct2, THEN mp]) (rule v)
  show ?thesis
    by (intro conjI) (rule present A run B [THEN conjunct1] C D)+
qed

section \<open>Back-filling response slots\<close>

lemma map_of_fold_update_cond:
  "map_of (fold (\<lambda>k r. if P k then AList.update k v r else r) ks al) x =
     (if x \<in> set ks \<and> P x then Some v else map_of al x)"
  by (induction ks arbitrary: al) (auto simp: update_conv')

text \<open>
  C8 (as the code has it). Every declared status code other than \<open>default\<close> (and, when the
  supplied example already has a status, other than 200, 201, 202 and 204) is set to an
  empty slot, whether or not the supplied example had content under that code; every
  other slot keeps its content.
\<close>

theorem backfillResponses_lookup:
  "map_of (backfillResponses responses declared) sc =
     (if sc \<in> set declared \<and> sc \<noteq> ''default'' \<and>
         (responses = [] \<or> sc \<notin> set preHandledStatusCode)
      then Some (VObj [])
      else map_of responses sc)"
  by (cases "responses = []")
     (simp_all add: backfillResponses_def map_of_fold_update_cond)

text \<open>
  C8 fails as stated: the supplied example has content under the declared code 404, and
  the slot is empty afterwards.
\<close>

theorem backfillResponses_overwrites_present_slot:
  "map_of [(''404'', VObj [(''body'', VScalar (SStr ''gone''))])] ''404''
       = Some (VObj [(''body'', VScalar (SStr ''gone''))])
   \<and> map_of (backfillResponses [(''404'', VObj [(''body'', VScalar (SStr ''gone''))])]
               [''200'', ''404'']) ''404''
       = Some (VObj [])"
  by (simp add: backfillResponses_def preHandledStatusCode_def update_conv')

end
